theory Spec2Isabelle
  imports Main "HOL-Library.Char_ord" "HOL-Library.List_Lexorder" "HOL-Library.Sublist"
begin

section \<open>Python values and exceptions\<close>

text \<open>
  The three scripts (the CCMI-1 and CCMI-2022 THREDDS catalogue clients and the FTP
  client) are embedded function by function. An exception that leaves a function is
  the left summand of its result; \<open>HTTPError\<close> is kept apart from the other
  exceptions of \<open>urlopen\<close> because the retry loops catch only that class.
\<close>

datatype pyerr =
    IndexError
  | TypeError
  | AttributeError
  | ValueError
  | KeyError
  | OverflowError
  | UnboundLocalError
  | SyntaxError
  | URLError
  | ParseError
  | FileExistsError
  | FileNotFoundError
  | IsADirectoryError
  | OSError
  | FTPError

text \<open>Sequencing of a computation that may raise.\<close>

definition bnd :: "pyerr + 'a \<Rightarrow> ('a \<Rightarrow> pyerr + 'b) \<Rightarrow> pyerr + 'b" where
  "bnd m f = (case m of Inl e \<Rightarrow> Inl e | Inr x \<Rightarrow> f x)"

text \<open>
  \<open>with open(name, 'wt') as out: pp.pprint(x)\<close>, as the environment decides it for
  a file name: the file is opened and \<open>x\<close> printed into it, or \<open>open\<close> raises, or
  the file is opened and the printing raises. What a function has written is a list of
  file names, each with what was printed into the file: \<open>None\<close> for a file that was
  opened and not printed.
\<close>

datatype wt_outcome = Printed | Open_raises pyerr | Print_raises pyerr

type_synonym disk = "string \<Rightarrow> wt_outcome"

definition print_to :: "disk \<Rightarrow> string \<Rightarrow> 'a \<Rightarrow> (string \<times> 'a option) list \<times> pyerr option" where
  "print_to dk name x =
     (case dk name of
        Printed \<Rightarrow> ([(name, Some x)], None)
      | Open_raises e \<Rightarrow> ([], Some e)
      | Print_raises e \<Rightarrow> ([(name, None)], Some e))"

section \<open>The catalogue transport: \<open>urlopen\<close> and the XML document\<close>

text \<open>
  An XML element as \<open>xml.etree.ElementTree\<close> holds it: the tag and the attribute
  names in Clark notation (\<open>{uri}local\<close>), the attributes in document order, the
  child elements.
\<close>

datatype element = Element string "(string \<times> string) list" "element list"

fun tag :: "element \<Rightarrow> string" where
  "tag (Element t a cs) = t"

fun attrib :: "element \<Rightarrow> (string \<times> string) list" where
  "attrib (Element t a cs) = a"

fun children :: "element \<Rightarrow> element list" where
  "children (Element t a cs) = cs"

text \<open>
  What \<open>urlopen(url)\<close> does at one attempt: it returns a socket whose content
  \<open>ET.parse\<close> either rejects or turns into a document, it raises \<open>HTTPError\<close>, or it
  raises another exception (\<open>URLError\<close>, a time-out, a malformed URL). The world
  gives the outcome for a URL and the attempt number \<open>ntry\<close> of the call.
\<close>

datatype body = Malformed | Document element

datatype open_outcome = Opened body | HTTPError_raised | Other_raised pyerr

type_synonym world = "string \<Rightarrow> nat \<Rightarrow> open_outcome"

text \<open>The namespace map \<open>cedans\<close> of both \<open>get_elements\<close>.\<close>

definition cedans :: "(string \<times> string) list" where
  "cedans =
     [(''default'', ''http://www.unidata.ucar.edu/namespaces/thredds/InvCatalog/v1.0''),
      (''xlink'', ''http://www.w3.org/1999/xlink'')]"

text \<open>
  \<open>Element.findall(tag, namespaces)\<close> for a plain tag name (no path operator), which
  is all the scripts pass: a name \<open>prefix:local\<close> is rewritten to \<open>{uri}local\<close>
  through the namespace map, and a prefix that the map does not declare raises
  \<open>SyntaxError\<close> (prefix not found in prefix map); the direct children with that
  tag are returned in document order.
\<close>

definition resolve_tag :: "(string \<times> string) list \<Rightarrow> string \<Rightarrow> pyerr + string" where
  "resolve_tag ns t =
     (if t \<noteq> [] \<and> hd t \<noteq> CHR ''{'' \<and> CHR '':'' \<in> set t
      then (case map_of ns (takeWhile (\<lambda>c. c \<noteq> CHR '':'') t) of
              None \<Rightarrow> Inl SyntaxError
            | Some uri \<Rightarrow>
                Inr (''{'' @ uri @ ''}'' @ tl (dropWhile (\<lambda>c. c \<noteq> CHR '':'') t)))
      else Inr t)"

definition findall :: "element \<Rightarrow> string \<Rightarrow> (string \<times> string) list \<Rightarrow> pyerr + element list" where
  "findall e t ns =
     bnd (resolve_tag ns t) (\<lambda>q. Inr (filter (\<lambda>c. tag c = q) (children e)))"

section \<open>CCMI-1: \<open>get_elements\<close>\<close>

text \<open>
  The retry loop \<open>for ntry in range(5)\<close>. It ends by \<open>break\<close> with the socket, by
  one of the two \<open>return []\<close> inside the handlers, or by running out of attempts with
  \<open>usock\<close> still \<open>None\<close>. The first component counts the calls of \<open>urlopen\<close>.
\<close>

datatype loop_exit = Break_with body | Return_empty | Exhausted

fun urlopen_loop_ccmi1 :: "world \<Rightarrow> string \<Rightarrow> nat list \<Rightarrow> nat \<times> loop_exit" where
  "urlopen_loop_ccmi1 w url [] = (0, Exhausted)"
| "urlopen_loop_ccmi1 w url (ntry # rest) =
     (case w url ntry of
        Opened b \<Rightarrow> (1, Break_with b)
      | HTTPError_raised \<Rightarrow>
          (if ntry = 4 then (1, Return_empty)
           else (let (n, r) = urlopen_loop_ccmi1 w url rest in (Suc n, r)))
      | Other_raised e \<Rightarrow> (1, Return_empty))"

text \<open>
  The two nested \<open>findall\<close> loops of the CCMI-1 script: an element without the
  attribute is passed over.
\<close>

fun attrs_of_ccmi1 :: "string \<Rightarrow> element list \<Rightarrow> string list" where
  "attrs_of_ccmi1 a [] = []"
| "attrs_of_ccmi1 a (work1 # ws) =
     (case map_of (attrib work1) a of
        None \<Rightarrow> attrs_of_ccmi1 a ws
      | Some v \<Rightarrow> v # attrs_of_ccmi1 a ws)"

fun collect_ccmi1 :: "string \<Rightarrow> string \<Rightarrow> element list \<Rightarrow> pyerr + string list" where
  "collect_ccmi1 tag2 a [] = Inr []"
| "collect_ccmi1 tag2 a (child # cs) =
     bnd (findall child tag2 cedans) (\<lambda>ws.
     bnd (collect_ccmi1 tag2 a cs) (\<lambda>rest.
       Inr (attrs_of_ccmi1 a ws @ rest)))"

definition get_elements_ccmi1 ::
  "world \<Rightarrow> string \<Rightarrow> string \<Rightarrow> string \<Rightarrow> string \<Rightarrow> nat \<times> (pyerr + string list)" where
  "get_elements_ccmi1 w url tag1 tag2 attribute_name =
     (let (n, r) = urlopen_loop_ccmi1 w url [0..<5] in
      (n, case r of
            Return_empty \<Rightarrow> Inr []
          | Exhausted \<Rightarrow> Inr []
          | Break_with Malformed \<Rightarrow> Inr []
          | Break_with (Document root) \<Rightarrow>
              bnd (findall root tag1 cedans) (collect_ccmi1 tag2 attribute_name)))"

section \<open>CCMI-2022: \<open>get_elements\<close>\<close>

text \<open>
  Here the loop catches \<open>HTTPError\<close> only and has no \<open>return\<close>: any other exception
  leaves the function, and after five \<open>HTTPError\<close>s the loop ends with \<open>usock\<close> never
  assigned, so that \<open>ET.parse(usock)\<close> raises \<open>UnboundLocalError\<close>. A parse error
  propagates, and a matched element without the attribute raises \<open>KeyError\<close>.
\<close>

fun urlopen_loop_ccmi2022 :: "world \<Rightarrow> string \<Rightarrow> nat list \<Rightarrow> nat \<times> (pyerr + body option)" where
  "urlopen_loop_ccmi2022 w url [] = (0, Inr None)"
| "urlopen_loop_ccmi2022 w url (ntry # rest) =
     (case w url ntry of
        Opened b \<Rightarrow> (1, Inr (Some b))
      | HTTPError_raised \<Rightarrow>
          (let (n, r) = urlopen_loop_ccmi2022 w url rest in (Suc n, r))
      | Other_raised e \<Rightarrow> (1, Inl e))"

fun attrs_of_ccmi2022 :: "string \<Rightarrow> element list \<Rightarrow> pyerr + string list" where
  "attrs_of_ccmi2022 a [] = Inr []"
| "attrs_of_ccmi2022 a (work1 # ws) =
     (case map_of (attrib work1) a of
        None \<Rightarrow> Inl KeyError
      | Some v \<Rightarrow> bnd (attrs_of_ccmi2022 a ws) (\<lambda>rest. Inr (v # rest)))"

fun collect_ccmi2022 :: "string \<Rightarrow> string \<Rightarrow> element list \<Rightarrow> pyerr + string list" where
  "collect_ccmi2022 tag2 a [] = Inr []"
| "collect_ccmi2022 tag2 a (child # cs) =
     bnd (findall child tag2 cedans) (\<lambda>ws.
     bnd (attrs_of_ccmi2022 a ws) (\<lambda>vs.
     bnd (collect_ccmi2022 tag2 a cs) (\<lambda>rest.
       Inr (vs @ rest))))"

definition get_elements_ccmi2022 ::
  "world \<Rightarrow> string \<Rightarrow> string \<Rightarrow> string \<Rightarrow> string \<Rightarrow> nat \<times> (pyerr + string list)" where
  "get_elements_ccmi2022 w url tag1 tag2 attribute_name =
     (let (n, r) = urlopen_loop_ccmi2022 w url [0..<5] in
      (n, case r of
            Inl e \<Rightarrow> Inl e
          | Inr None \<Rightarrow> Inl UnboundLocalError
          | Inr (Some Malformed) \<Rightarrow> Inl ParseError
          | Inr (Some (Document root)) \<Rightarrow>
              bnd (findall root tag1 cedans) (collect_ccmi2022 tag2 attribute_name)))"

section \<open>Nested lists, counters and URL strings\<close>

text \<open>
  The inventory \<open>invntry\<close> is a nested Python list whose shape depends on the data:
  names are strings, and every container is a list that begins with its own name. The
  scripts reach into it by position, so the model keeps it untyped. Indexing a string
  yields the one-character string at that position; a string has no \<open>insert\<close>.
  All indices the scripts compute are non-negative.
\<close>

datatype pyval = Str string | Lst "pyval list"

fun getitem :: "pyval \<Rightarrow> nat \<Rightarrow> pyerr + pyval" where
  "getitem (Lst xs) i = (if i < length xs then Inr (xs ! i) else Inl IndexError)"
| "getitem (Str s) i = (if i < length s then Inr (Str [s ! i]) else Inl IndexError)"

text \<open>\<open>v[i][j]...\<close>, the subscripts applied from left to right.\<close>

fun getpath :: "pyval \<Rightarrow> nat list \<Rightarrow> pyerr + pyval" where
  "getpath v [] = Inr v"
| "getpath v (i # p) = bnd (getitem v i) (\<lambda>x. getpath x p)"

text \<open>\<open>list.insert(i, x)\<close> for \<open>i \<ge> 0\<close>: an index beyond the end appends.\<close>

definition list_insert :: "nat \<Rightarrow> 'a \<Rightarrow> 'a list \<Rightarrow> 'a list" where
  "list_insert i x xs = take i xs @ x # drop i xs"

text \<open>
  \<open>v[i][j]...insert(pos, x)\<close>: the list found under the subscripts is changed in
  place. No two positions of \<open>invntry\<close> share a list (every list put into it is
  fresh, and \<open>twork\<close> is a deep copy), so the update is the update of a value.
\<close>

fun insert_at :: "pyval \<Rightarrow> nat list \<Rightarrow> nat \<Rightarrow> pyval \<Rightarrow> pyerr + pyval" where
  "insert_at (Lst xs) [] pos x = Inr (Lst (list_insert pos x xs))"
| "insert_at (Str s) [] pos x = Inl AttributeError"
| "insert_at (Lst xs) (i # p) pos x =
     (if i < length xs
      then bnd (insert_at (xs ! i) p pos x) (\<lambda>y. Inr (Lst (xs[i := y])))
      else Inl IndexError)"
| "insert_at (Str s) (i # p) pos x =
     (if i < length s
      then bnd (insert_at (Str [s ! i]) p pos x) (\<lambda>y. Inr (Str s))
      else Inl IndexError)"

text \<open>Each name of a listing goes in as a one-element list, at \<open>pos\<close>, \<open>pos + 1\<close>, ...\<close>

fun insert_names :: "pyval \<Rightarrow> nat list \<Rightarrow> nat \<Rightarrow> string list \<Rightarrow> pyerr + pyval" where
  "insert_names tr p pos [] = Inr tr"
| "insert_names tr p pos (x # xs) =
     bnd (insert_at tr p pos (Lst [Str x])) (\<lambda>tr'. insert_names tr' p (Suc pos) xs)"

text \<open>The same with the bare strings, as the variables level does from its second name on.\<close>

fun insert_strs :: "pyval \<Rightarrow> nat list \<Rightarrow> nat \<Rightarrow> string list \<Rightarrow> pyerr + pyval" where
  "insert_strs tr p pos [] = Inr tr"
| "insert_strs tr p pos (x # xs) =
     bnd (insert_at tr p pos (Str x)) (\<lambda>tr'. insert_strs tr' p (Suc pos) xs)"

text \<open>
  \<open>root_url + a + '/' + b + ...\<close>: the operands are evaluated and added from left to
  right; adding a list to a string raises \<open>TypeError\<close>.
\<close>

fun cat_all :: "string \<Rightarrow> (pyerr + pyval) list \<Rightarrow> pyerr + string" where
  "cat_all acc [] = Inr acc"
| "cat_all acc (m # ms) =
     bnd m (\<lambda>v. case v of Str s \<Rightarrow> cat_all (acc @ s) ms | Lst xs \<Rightarrow> Inl TypeError)"

definition lit :: "string \<Rightarrow> pyerr + pyval" where
  "lit s = Inr (Str s)"

text \<open>The numpy count arrays: \<open>np.zeros(n, dtype=int)\<close>, \<open>a[i]\<close> and \<open>a[i] = v\<close>.\<close>

definition np_zeros :: "int \<Rightarrow> pyerr + int list" where
  "np_zeros n = (if n < 0 then Inl ValueError else Inr (replicate (nat n) 0))"

definition np_get :: "int list \<Rightarrow> nat \<Rightarrow> pyerr + int" where
  "np_get a i = (if i < length a then Inr (a ! i) else Inl IndexError)"

definition np_set :: "int list \<Rightarrow> nat \<Rightarrow> int \<Rightarrow> pyerr + int list" where
  "np_set a i v = (if i < length a then Inr (a[i := v]) else Inl IndexError)"

definition nth_checked :: "'a list \<Rightarrow> nat \<Rightarrow> pyerr + 'a" where
  "nth_checked xs i = (if i < length xs then Inr (xs ! i) else Inl IndexError)"

text \<open>\<open>range(n)\<close> and \<open>range(1, n + 1)\<close>.\<close>

definition range0 :: "int \<Rightarrow> nat list" where
  "range0 n = [0..<nat n]"

definition range1 :: "int \<Rightarrow> nat list" where
  "range1 n = [1..<Suc (nat n)]"

section \<open>\<open>create_inventory_file\<close>\<close>

text \<open>
  The state of the build: the inventory, the count arrays and the running counters
  \<open>icnt1\<close> .. \<open>icnt4\<close>. The levels are parameterised by \<open>ls\<close>, the script's own
  \<open>get_elements\<close> applied to a URL with the tags \<open>default:dataset\<close>,
  \<open>default:catalogRef\<close> and the attribute \<open>xlink:title\<close>.
\<close>

record build =
  invntry :: pyval
  nmdls :: "int list"
  nxpts :: "int list"
  nsims :: "int list"
  ntabs :: "int list"
  nvars :: "int list"
  icnt1 :: nat
  icnt2 :: nat
  icnt3 :: nat
  icnt4 :: nat

definition title_attr :: string where
  "title_attr = ''{http://www.w3.org/1999/xlink}title''"

definition listing_ccmi1 :: "world \<Rightarrow> string \<Rightarrow> pyerr + string list" where
  "listing_ccmi1 w url =
     snd (get_elements_ccmi1 w url ''default:dataset'' ''default:catalogRef'' title_attr)"

definition listing_ccmi2022 :: "world \<Rightarrow> string \<Rightarrow> pyerr + string list" where
  "listing_ccmi2022 w url =
     snd (get_elements_ccmi2022 w url ''default:dataset'' ''default:catalogRef'' title_attr)"

subsection \<open>Institutions and models (both XML scripts)\<close>

text \<open>
  \<open>for ii in range(ninst)\<close>: list the models of institution \<open>ii\<close>, record their
  number and append \<open>[instts[ii], mname]\<close>. The inventory is the list built so far.
\<close>

fun models_level ::
  "(string \<Rightarrow> pyerr + string list) \<Rightarrow> string \<Rightarrow> string list \<Rightarrow> nat list \<Rightarrow>
   pyval list \<times> int list \<Rightarrow> pyerr + pyval list \<times> int list" where
  "models_level ls root_url instts [] st = Inr st"
| "models_level ls root_url instts (ii # rest) (tr, nm) =
     bnd (nth_checked instts ii) (\<lambda>inst.
     bnd (ls (root_url @ inst @ ''/catalog.xml'')) (\<lambda>mname.
     bnd (np_set nm ii (int (length mname))) (\<lambda>nm'.
       models_level ls root_url instts rest
         (tr @ [Lst [Str inst, Lst (map Str mname)]], nm'))))"

subsection \<open>Experiments (both XML scripts)\<close>

text \<open>
  \<open>for ij in range(nmdls[ii])\<close>: the experiments of model \<open>ij\<close> are inserted into
  \<open>invntry[ii][1]\<close>, the list of the model names, at the positions \<open>2*ij+ik+1\<close>.
\<close>

fun expts_ij ::
  "(string \<Rightarrow> pyerr + string list) \<Rightarrow> string \<Rightarrow> nat \<Rightarrow> pyval \<Rightarrow> nat list \<Rightarrow> build \<Rightarrow> pyerr + build" where
  "expts_ij ls root_url ii twork [] b = Inr b"
| "expts_ij ls root_url ii twork (ij # rest) b =
     bnd (cat_all root_url
            [getpath twork [0], lit ''/'', getpath twork [1, ij], lit ''/catalog.xml'']) (\<lambda>url.
     bnd (ls url) (\<lambda>expname.
     bnd (insert_names (invntry b) [ii, 1] (2 * ij + 1) expname) (\<lambda>tr'.
     bnd (np_set (nxpts b) (icnt1 b) (int (length expname))) (\<lambda>nx.
       expts_ij ls root_url ii twork rest
         (b\<lparr>invntry := tr', nxpts := nx, icnt1 := Suc (icnt1 b)\<rparr>)))))"

fun expts_ii ::
  "(string \<Rightarrow> pyerr + string list) \<Rightarrow> string \<Rightarrow> nat list \<Rightarrow> build \<Rightarrow> pyerr + build" where
  "expts_ii ls root_url [] b = Inr b"
| "expts_ii ls root_url (ii # rest) b =
     bnd (getpath (invntry b) [ii]) (\<lambda>twork.
     bnd (np_get (nmdls b) ii) (\<lambda>n.
     bnd (expts_ij ls root_url ii twork (range0 n) b) (\<lambda>b'.
       expts_ii ls root_url rest b')))"

text \<open>The first two levels, up to \<open>tnxpts = sum(nxpts)\<close>.\<close>

definition build_expts ::
  "(string \<Rightarrow> pyerr + string list) \<Rightarrow> string \<Rightarrow> pyerr + int \<times> build" where
  "build_expts ls root_url =
     bnd (ls (root_url @ ''catalog.xml'')) (\<lambda>instts.
     let ninst = int (length instts) in
     bnd (np_zeros ninst) (\<lambda>z.
     bnd (models_level ls root_url instts (range0 ninst) ([], z)) (\<lambda>(tr, nm).
     bnd (np_zeros (sum_list nm)) (\<lambda>zx.
     bnd (expts_ii ls root_url (range0 ninst)
            \<lparr>invntry = Lst tr, nmdls = nm, nxpts = zx, nsims = [], ntabs = [], nvars = [],
             icnt1 = 0, icnt2 = 0, icnt3 = 0, icnt4 = 0\<rparr>) (\<lambda>b.
       Inr (ninst, b))))))"

subsection \<open>CCMI-1: the inventory file\<close>

text \<open>
  \<open>fullinvntry = [invntry, [ninst], list(nmdls), list(nxpts)]\<close>. The function returns
  it after printing it into \<open>inventory_file\<close>; no handler surrounds the \<open>with\<close>
  statement. The first component of the result is what the call has written.
\<close>

record fullinvntry_ccmi1 =
  inv1 :: pyval
  ninst1 :: int
  nmdls1 :: "int list"
  nxpts1 :: "int list"

definition create_inventory_file_ccmi1 ::
  "world \<Rightarrow> disk \<Rightarrow> string \<Rightarrow> string \<Rightarrow>
   (string \<times> fullinvntry_ccmi1 option) list \<times> (pyerr + fullinvntry_ccmi1)" where
  "create_inventory_file_ccmi1 w dk inventory_file root_url =
     (case build_expts (listing_ccmi1 w) root_url of
        Inl e \<Rightarrow> ([], Inl e)
      | Inr (ninst, b) \<Rightarrow>
          (let full = \<lparr>inv1 = invntry b, ninst1 = ninst, nmdls1 = nmdls b, nxpts1 = nxpts b\<rparr>
           in case print_to dk inventory_file full of
                (written, Some e) \<Rightarrow> (written, Inl e)
              | (written, None) \<Rightarrow> (written, Inr full)))"

subsection \<open>CCMI-2022: runs, tables and variables\<close>

text \<open>
  From here on the script reads the model \<open>ij\<close> of institution \<open>ii\<close> at
  \<open>invntry[ii][ij]\<close>, for \<open>ij\<close> from 1 to \<open>nmdls[ii]\<close>.
\<close>

fun runs_ik ::
  "(string \<Rightarrow> pyerr + string list) \<Rightarrow> string \<Rightarrow> nat \<Rightarrow> nat \<Rightarrow> pyval \<Rightarrow> nat list \<Rightarrow> build \<Rightarrow> pyerr + build" where
  "runs_ik ls root_url ii ij twork [] b = Inr b"
| "runs_ik ls root_url ii ij twork (ik # rest) b =
     bnd (cat_all root_url
            [getpath (invntry b) [ii, 0], lit ''/'', getpath (invntry b) [ii, ij, 0], lit ''/'',
             getpath twork [ik, 0], lit ''/catalog.xml'']) (\<lambda>url.
     bnd (ls url) (\<lambda>sims.
     bnd (insert_names (invntry b) [ii, ij, ik] 1 sims) (\<lambda>tr'.
     bnd (np_set (nsims b) (icnt2 b) (int (length sims))) (\<lambda>ns.
       runs_ik ls root_url ii ij twork rest
         (b\<lparr>invntry := tr', nsims := ns, icnt2 := Suc (icnt2 b)\<rparr>)))))"

fun runs_ij ::
  "(string \<Rightarrow> pyerr + string list) \<Rightarrow> string \<Rightarrow> nat \<Rightarrow> nat list \<Rightarrow> build \<Rightarrow> pyerr + build" where
  "runs_ij ls root_url ii [] b = Inr b"
| "runs_ij ls root_url ii (ij # rest) b =
     bnd (getpath (invntry b) [ii, ij]) (\<lambda>twork.
     bnd (np_get (nxpts b) (icnt1 b)) (\<lambda>n.
     bnd (runs_ik ls root_url ii ij twork (range1 n) b) (\<lambda>b'.
       runs_ij ls root_url ii rest (b'\<lparr>icnt1 := Suc (icnt1 b')\<rparr>))))"

fun runs_ii ::
  "(string \<Rightarrow> pyerr + string list) \<Rightarrow> string \<Rightarrow> nat list \<Rightarrow> build \<Rightarrow> pyerr + build" where
  "runs_ii ls root_url [] b = Inr b"
| "runs_ii ls root_url (ii # rest) b =
     bnd (np_get (nmdls b) ii) (\<lambda>n.
     bnd (runs_ij ls root_url ii (range1 n) b) (\<lambda>b'.
       runs_ii ls root_url rest b'))"

fun tabs_il ::
  "(string \<Rightarrow> pyerr + string list) \<Rightarrow> string \<Rightarrow> nat \<Rightarrow> nat \<Rightarrow> nat \<Rightarrow> pyval \<Rightarrow> nat list \<Rightarrow> build \<Rightarrow>
   pyerr + build" where
  "tabs_il ls root_url ii ij ik twork [] b = Inr b"
| "tabs_il ls root_url ii ij ik twork (il # rest) b =
     bnd (cat_all root_url
            [getpath (invntry b) [ii, 0], lit ''/'', getpath (invntry b) [ii, ij, 0], lit ''/'',
             getpath (invntry b) [ii, ij, ik, 0], lit ''/'',
             getpath twork [il, 0], lit ''/catalog.xml'']) (\<lambda>url.
     bnd (ls url) (\<lambda>tables.
     bnd (insert_names (invntry b) [ii, ij, ik, il] 1 tables) (\<lambda>tr'.
     bnd (np_set (ntabs b) (icnt3 b) (int (length tables))) (\<lambda>nt.
       tabs_il ls root_url ii ij ik twork rest
         (b\<lparr>invntry := tr', ntabs := nt, icnt3 := Suc (icnt3 b)\<rparr>)))))"

fun tabs_ik ::
  "(string \<Rightarrow> pyerr + string list) \<Rightarrow> string \<Rightarrow> nat \<Rightarrow> nat \<Rightarrow> nat list \<Rightarrow> build \<Rightarrow> pyerr + build" where
  "tabs_ik ls root_url ii ij [] b = Inr b"
| "tabs_ik ls root_url ii ij (ik # rest) b =
     bnd (getpath (invntry b) [ii, ij, ik]) (\<lambda>twork.
     bnd (np_get (nsims b) (icnt2 b)) (\<lambda>n.
     bnd (tabs_il ls root_url ii ij ik twork (range1 n) b) (\<lambda>b'.
       tabs_ik ls root_url ii ij rest (b'\<lparr>icnt2 := Suc (icnt2 b')\<rparr>))))"

fun tabs_ij ::
  "(string \<Rightarrow> pyerr + string list) \<Rightarrow> string \<Rightarrow> nat \<Rightarrow> nat list \<Rightarrow> build \<Rightarrow> pyerr + build" where
  "tabs_ij ls root_url ii [] b = Inr b"
| "tabs_ij ls root_url ii (ij # rest) b =
     bnd (np_get (nxpts b) (icnt1 b)) (\<lambda>n.
     bnd (tabs_ik ls root_url ii ij (range1 n) b) (\<lambda>b'.
       tabs_ij ls root_url ii rest (b'\<lparr>icnt1 := Suc (icnt1 b')\<rparr>)))"

fun tabs_ii ::
  "(string \<Rightarrow> pyerr + string list) \<Rightarrow> string \<Rightarrow> nat list \<Rightarrow> build \<Rightarrow> pyerr + build" where
  "tabs_ii ls root_url [] b = Inr b"
| "tabs_ii ls root_url (ii # rest) b =
     bnd (np_get (nmdls b) ii) (\<lambda>n.
     bnd (tabs_ij ls root_url ii (range1 n) b) (\<lambda>b'.
       tabs_ii ls root_url rest b'))"

text \<open>
  The variables level puts the names of a table directory into one list:
  \<open>invntry[ii][ij][ik][il][im].insert(1, [varbls[0]])\<close>, then the other names into
  that list. The receiver of \<open>insert\<close> is evaluated before \<open>varbls[0]\<close>.
\<close>

fun vars_im ::
  "(string \<Rightarrow> pyerr + string list) \<Rightarrow> string \<Rightarrow> nat \<Rightarrow> nat \<Rightarrow> nat \<Rightarrow> nat \<Rightarrow> pyval \<Rightarrow> nat list \<Rightarrow> build \<Rightarrow>
   pyerr + build" where
  "vars_im ls root_url ii ij ik il twork [] b = Inr b"
| "vars_im ls root_url ii ij ik il twork (im # rest) b =
     bnd (cat_all root_url
            [getpath (invntry b) [ii, 0], lit ''/'', getpath (invntry b) [ii, ij, 0], lit ''/'',
             getpath (invntry b) [ii, ij, ik, 0], lit ''/'',
             getpath (invntry b) [ii, ij, ik, il, 0], lit ''/'',
             getpath twork [im, 0], lit ''/catalog.xml'']) (\<lambda>url.
     bnd (ls url) (\<lambda>varbls.
     bnd (getpath (invntry b) [ii, ij, ik, il, im]) (\<lambda>tgt.
     bnd (case tgt of Str s \<Rightarrow> Inl AttributeError | Lst xs \<Rightarrow> nth_checked varbls 0) (\<lambda>v0.
     bnd (insert_at (invntry b) [ii, ij, ik, il, im] 1 (Lst [Str v0])) (\<lambda>tr'.
     bnd (insert_strs tr' [ii, ij, ik, il, im, 1] 1 (tl varbls)) (\<lambda>tr''.
     bnd (np_set (nvars b) (icnt4 b) (int (length varbls))) (\<lambda>nv.
       vars_im ls root_url ii ij ik il twork rest
         (b\<lparr>invntry := tr'', nvars := nv, icnt4 := Suc (icnt4 b)\<rparr>))))))))"

fun vars_il ::
  "(string \<Rightarrow> pyerr + string list) \<Rightarrow> string \<Rightarrow> nat \<Rightarrow> nat \<Rightarrow> nat \<Rightarrow> nat list \<Rightarrow> build \<Rightarrow> pyerr + build" where
  "vars_il ls root_url ii ij ik [] b = Inr b"
| "vars_il ls root_url ii ij ik (il # rest) b =
     bnd (getpath (invntry b) [ii, ij, ik, il, 0]) (\<lambda>rsim.
     bnd (getpath (invntry b) [ii, ij, ik, il]) (\<lambda>twork.
     bnd (np_get (ntabs b) (icnt3 b)) (\<lambda>n.
     bnd (vars_im ls root_url ii ij ik il twork (range1 n) b) (\<lambda>b'.
       vars_il ls root_url ii ij ik rest (b'\<lparr>icnt3 := Suc (icnt3 b')\<rparr>)))))"

fun vars_ik ::
  "(string \<Rightarrow> pyerr + string list) \<Rightarrow> string \<Rightarrow> nat \<Rightarrow> nat \<Rightarrow> nat list \<Rightarrow> build \<Rightarrow> pyerr + build" where
  "vars_ik ls root_url ii ij [] b = Inr b"
| "vars_ik ls root_url ii ij (ik # rest) b =
     bnd (getpath (invntry b) [ii, ij, ik, 0]) (\<lambda>expt.
     bnd (np_get (nsims b) (icnt2 b)) (\<lambda>n.
     bnd (vars_il ls root_url ii ij (ik) (range1 n) b) (\<lambda>b'.
       vars_ik ls root_url ii ij rest (b'\<lparr>icnt2 := Suc (icnt2 b')\<rparr>))))"

fun vars_ij ::
  "(string \<Rightarrow> pyerr + string list) \<Rightarrow> string \<Rightarrow> nat \<Rightarrow> nat list \<Rightarrow> build \<Rightarrow> pyerr + build" where
  "vars_ij ls root_url ii [] b = Inr b"
| "vars_ij ls root_url ii (ij # rest) b =
     bnd (getpath (invntry b) [ii, ij, 0]) (\<lambda>mdl.
     bnd (np_get (nxpts b) (icnt1 b)) (\<lambda>n.
     bnd (vars_ik ls root_url ii ij (range1 n) b) (\<lambda>b'.
       vars_ij ls root_url ii rest (b'\<lparr>icnt1 := Suc (icnt1 b')\<rparr>))))"

fun vars_ii ::
  "(string \<Rightarrow> pyerr + string list) \<Rightarrow> string \<Rightarrow> nat list \<Rightarrow> build \<Rightarrow> pyerr + build" where
  "vars_ii ls root_url [] b = Inr b"
| "vars_ii ls root_url (ii # rest) b =
     bnd (np_get (nmdls b) ii) (\<lambda>n.
     bnd (vars_ij ls root_url ii (range1 n) b) (\<lambda>b'.
       vars_ii ls root_url rest b'))"

subsection \<open>CCMI-2022: the inventory file\<close>

record fullinvntry =
  invntry_f :: pyval
  ninst_f :: int
  nmdls_f :: "int list"
  nxpts_f :: "int list"
  nsims_f :: "int list"
  ntabs_f :: "int list"
  nvars_f :: "int list"

definition build_ccmi2022 ::
  "(string \<Rightarrow> pyerr + string list) \<Rightarrow> string \<Rightarrow> pyerr + fullinvntry" where
  "build_ccmi2022 ls root_url =
     bnd (build_expts ls root_url) (\<lambda>(n, b1).
     bnd (np_zeros (sum_list (nxpts b1))) (\<lambda>zs.
     bnd (runs_ii ls root_url (range0 n) (b1\<lparr>nsims := zs, icnt1 := 0, icnt2 := 0\<rparr>)) (\<lambda>b2.
     bnd (np_zeros (sum_list (nsims b2))) (\<lambda>zt.
     bnd (tabs_ii ls root_url (range0 n)
            (b2\<lparr>ntabs := zt, icnt1 := 0, icnt2 := 0, icnt3 := 0\<rparr>)) (\<lambda>b3.
     bnd (np_zeros (sum_list (ntabs b3))) (\<lambda>zv.
     bnd (vars_ii ls root_url (range0 n)
            (b3\<lparr>nvars := zv, icnt1 := 0, icnt2 := 0, icnt3 := 0, icnt4 := 0\<rparr>)) (\<lambda>b4.
       Inr \<lparr>invntry_f = invntry b4, ninst_f = n, nmdls_f = nmdls b4, nxpts_f = nxpts b4,
            nsims_f = nsims b4, ntabs_f = ntabs b4, nvars_f = nvars b4\<rparr>)))))))"

definition create_inventory_file_ccmi2022 ::
  "world \<Rightarrow> disk \<Rightarrow> string \<Rightarrow> string \<Rightarrow>
   (string \<times> fullinvntry option) list \<times> (pyerr + fullinvntry)" where
  "create_inventory_file_ccmi2022 w dk inventory_file root_url =
     (case build_ccmi2022 (listing_ccmi2022 w) root_url of
        Inl e \<Rightarrow> ([], Inl e)
      | Inr full \<Rightarrow>
          (case print_to dk inventory_file full of
             (written, Some e) \<Rightarrow> (written, Inl e)
           | (written, None) \<Rightarrow> (written, Inr full)))"

section \<open>Python's \<open>int\<close> and \<open>str\<close> on version names\<close>

text \<open>
  \<open>int(s)\<close> for a string of ASCII characters: white space around the number is
  dropped, one sign is allowed, the digits may be separated by single underscores, and
  anything else raises \<open>ValueError\<close>, as does a number of more than 4300 digits
  (the default limit of the interpreter). \<open>str(n)\<close> is the decimal numeral.
\<close>

definition isspace :: "char \<Rightarrow> bool" where
  "isspace c = (c \<in> set [CHR '' '', CHR 0x09, CHR 0x0A, CHR 0x0B, CHR 0x0C, CHR 0x0D])"

definition isdigit :: "char \<Rightarrow> bool" where
  "isdigit c = (c \<in> set ''0123456789'')"

definition digit_val :: "char \<Rightarrow> nat" where
  "digit_val c = of_char c - 48"

definition digit_char :: "nat \<Rightarrow> char" where
  "digit_char d = ''0123456789'' ! d"

text \<open>
  The digits of a numeral with its underscores taken out; \<open>None\<close> when an underscore
  is not between two digits or another character occurs. The flag says whether the
  previous character was a digit.
\<close>

fun strip_underscores :: "bool \<Rightarrow> string \<Rightarrow> string option" where
  "strip_underscores prev [] = (if prev then Some [] else None)"
| "strip_underscores prev (c # cs) =
     (if isdigit c then map_option (\<lambda>ds. c # ds) (strip_underscores True cs)
      else if c = CHR ''_'' \<and> prev then strip_underscores False cs
      else None)"

definition digits_val :: "string \<Rightarrow> nat" where
  "digits_val ds = fold (\<lambda>c acc. 10 * acc + digit_val c) ds 0"

definition py_int_unsigned :: "string \<Rightarrow> pyerr + int" where
  "py_int_unsigned s =
     (case strip_underscores False s of
        None \<Rightarrow> Inl ValueError
      | Some ds \<Rightarrow> if 4300 < length ds then Inl ValueError else Inr (int (digits_val ds)))"

definition py_int :: "string \<Rightarrow> pyerr + int" where
  "py_int s =
     (let t = rev (dropWhile isspace (rev (dropWhile isspace s))) in
      case t of
        [] \<Rightarrow> Inl ValueError
      | c # cs \<Rightarrow>
          if c = CHR ''-'' then bnd (py_int_unsigned cs) (\<lambda>n. Inr (- n))
          else if c = CHR ''+'' then py_int_unsigned cs
          else py_int_unsigned t)"

fun str_nat :: "nat \<Rightarrow> string" where
  "str_nat n = (if n < 10 then [digit_char n] else str_nat (n div 10) @ [digit_char (n mod 10)])"

definition py_str :: "int \<Rightarrow> string" where
  "py_str i = (if i < 0 then CHR ''-'' # str_nat (nat (- i)) else str_nat (nat i))"

text \<open>\<open>nwork[iv] = n\<close> into an array of 64-bit integers.\<close>

definition int64 :: "int \<Rightarrow> pyerr + int" where
  "int64 n = (if - (2 ^ 63) \<le> n \<and> n < 2 ^ 63 then Inr n else Inl OverflowError)"

section \<open>CCMI-2022: \<open>search_inventory\<close>\<close>

text \<open>
  The version directory. With more than one name, every name loses its first character
  and the rest is read as an integer; the target is \<open>'v' + str(max(nwork))\<close>.
  Otherwise the target is \<open>vers[0]\<close>.
\<close>

fun nwork_of :: "string list \<Rightarrow> pyerr + int list" where
  "nwork_of [] = Inr []"
| "nwork_of (v # vs) =
     bnd (py_int (drop 1 v)) (\<lambda>n.
     bnd (int64 n) (\<lambda>n'.
     bnd (nwork_of vs) (\<lambda>rest. Inr (n' # rest))))"

definition vertrg_of :: "string list \<Rightarrow> pyerr + string" where
  "vertrg_of vers =
     (if 1 < length vers
      then bnd (nwork_of vers) (\<lambda>nwork. Inr (''v'' @ py_str (fold max (tl nwork) (hd nwork))))
      else nth_checked vers 0)"

definition files_ccmi2022 :: "world \<Rightarrow> string \<Rightarrow> pyerr + string list" where
  "files_ccmi2022 w url =
     snd (get_elements_ccmi2022 w url ''default:dataset'' ''default:dataset'' ''urlPath'')"

text \<open>
  The state of the search: \<open>flist\<close>, one \<open>[name, [files]]\<close> per institution, the
  four running counters, and the calls of \<open>get_elements\<close> made so far, in order: a
  listing of directories (\<open>catalogRef\<close> titles) or of files (\<open>dataset\<close> paths), with
  the URL. The inventory and its count arrays are only read.
\<close>

datatype call = Dirs string | Files string

record search =
  flist :: pyval
  asked :: "call list"
  jcnt1 :: nat
  jcnt2 :: nat
  jcnt3 :: nat
  jcnt4 :: nat











section \<open>CCMI-1: \<open>search_inventory_ccmi1\<close>\<close>

text \<open>
  The live search. Its state holds \<open>found_files\<close>, the URLs handed to \<open>get_elements\<close>
  in the order of the calls, and the number of times an \<open>except:\<close> branch around such a
  call was entered.
\<close>

record sstate =
  calls :: "string list"
  found_files :: "string list"
  handled :: nat

definition get_elements_logged ::
  "world \<Rightarrow> sstate \<Rightarrow> string \<Rightarrow> string \<Rightarrow> string \<Rightarrow> string \<Rightarrow> (pyerr + string list) \<times> sstate" where
  "get_elements_logged w s url tag1 tag2 a =
     (snd (get_elements_ccmi1 w url tag1 tag2 a), s\<lparr>calls := calls s @ [url]\<rparr>)"

definition dirs_logged :: "world \<Rightarrow> sstate \<Rightarrow> string \<Rightarrow> (pyerr + string list) \<times> sstate" where
  "dirs_logged w s url =
     get_elements_logged w s url ''default:dataset'' ''default:catalogRef'' title_attr"

text \<open>\<open>for var in trgvar\<close>: the files of a wanted variable that the version holds.\<close>

fun search_vars ::
  "world \<Rightarrow> string \<Rightarrow> string \<Rightarrow> string list \<Rightarrow> string list \<Rightarrow> sstate \<Rightarrow> sstate" where
  "search_vars w root_url var_path variables [] s = s"
| "search_vars w root_url var_path variables (var # rest) s =
     (if var \<in> set variables
      then (case get_elements_logged w s (root_url @ var_path @ ''/'' @ var @ ''/catalog.xml'')
                   ''default:dataset'' ''default:dataset'' ''urlPath'' of
              (Inl e, s') \<Rightarrow>
                search_vars w root_url var_path variables rest (s'\<lparr>handled := Suc (handled s')\<rparr>)
            | (Inr files, s') \<Rightarrow>
                search_vars w root_url var_path variables rest
                  (s'\<lparr>found_files := found_files s' @ files\<rparr>))
      else search_vars w root_url var_path variables rest s)"

text \<open>\<open>for version in sorted(versions)\<close>: every version directory is searched.\<close>

fun search_versions ::
  "world \<Rightarrow> string \<Rightarrow> string \<Rightarrow> string list \<Rightarrow> string list \<Rightarrow> sstate \<Rightarrow> sstate" where
  "search_versions w root_url version_path trgvar [] s = s"
| "search_versions w root_url version_path trgvar (version # rest) s =
     (let var_path = version_path @ ''/'' @ version in
      case dirs_logged w s (root_url @ var_path @ ''/catalog.xml'') of
        (Inl e, s') \<Rightarrow>
          search_versions w root_url version_path trgvar rest (s'\<lparr>handled := Suc (handled s')\<rparr>)
      | (Inr variables, s') \<Rightarrow>
          search_versions w root_url version_path trgvar rest
            (search_vars w root_url var_path variables trgvar s'))"

fun search_ensembles ::
  "world \<Rightarrow> string \<Rightarrow> string \<Rightarrow> string list \<Rightarrow> string list \<Rightarrow> sstate \<Rightarrow> sstate" where
  "search_ensembles w root_url ensemble_path trgvar [] s = s"
| "search_ensembles w root_url ensemble_path trgvar (ensemble # rest) s =
     (let version_path = ensemble_path @ ''/'' @ ensemble in
      case dirs_logged w s (root_url @ version_path @ ''/catalog.xml'') of
        (Inl e, s') \<Rightarrow>
          search_ensembles w root_url ensemble_path trgvar rest (s'\<lparr>handled := Suc (handled s')\<rparr>)
      | (Inr versions, s') \<Rightarrow>
          search_ensembles w root_url ensemble_path trgvar rest
            (search_versions w root_url version_path trgvar (sort versions) s'))"

text \<open>
  The body of \<open>for expt in trgexpt\<close>: the path to the experiment is built from the
  target name, and the frequency, realm and frequency-name directories are checked
  one after the other; each \<open>continue\<close> ends the body.
\<close>

definition search_expt ::
  "world \<Rightarrow> string \<Rightarrow> string \<Rightarrow> string \<Rightarrow> string \<Rightarrow> string \<Rightarrow> string \<Rightarrow> string list \<Rightarrow>
   string \<Rightarrow> sstate \<Rightarrow> sstate" where
  "search_expt w root_url inst model trgfreq trgrealm trgfreqname trgvar expt s =
     (let expt_path = inst @ ''/'' @ model @ ''/'' @ expt;
          realm_path = expt_path @ ''/'' @ trgfreq @ ''/'' @ trgrealm;
          ensemble_path = realm_path @ ''/'' @ trgfreqname
      in
      case dirs_logged w s (root_url @ expt_path @ ''/'' @ trgfreq @ ''/catalog.xml'') of
        (Inl e, s1) \<Rightarrow> s1\<lparr>handled := Suc (handled s1)\<rparr>
      | (Inr realms, s1) \<Rightarrow>
          if trgrealm \<notin> set realms then s1
          else
           (case dirs_logged w s1 (root_url @ realm_path @ ''/catalog.xml'') of
              (Inl e, s2) \<Rightarrow> s2\<lparr>handled := Suc (handled s2)\<rparr>
            | (Inr freqnames, s2) \<Rightarrow>
                if trgfreqname \<notin> set freqnames then s2
                else
                 (case dirs_logged w s2 (root_url @ ensemble_path @ ''/catalog.xml'') of
                    (Inl e, s3) \<Rightarrow> s3\<lparr>handled := Suc (handled s3)\<rparr>
                  | (Inr ensembles, s3) \<Rightarrow>
                      search_ensembles w root_url ensemble_path trgvar ensembles s3)))"

fun search_expts ::
  "world \<Rightarrow> string \<Rightarrow> string \<Rightarrow> string \<Rightarrow> string \<Rightarrow> string \<Rightarrow> string \<Rightarrow> string list \<Rightarrow>
   string list \<Rightarrow> sstate \<Rightarrow> sstate" where
  "search_expts w root_url inst model trgfreq trgrealm trgfreqname trgvar [] s = s"
| "search_expts w root_url inst model trgfreq trgrealm trgfreqname trgvar (expt # rest) s =
     search_expts w root_url inst model trgfreq trgrealm trgfreqname trgvar rest
       (search_expt w root_url inst model trgfreq trgrealm trgfreqname trgvar expt s)"

fun search_models ::
  "world \<Rightarrow> string \<Rightarrow> string \<Rightarrow> string list \<Rightarrow> string \<Rightarrow> string \<Rightarrow> string \<Rightarrow> string list \<Rightarrow>
   string list \<Rightarrow> sstate \<Rightarrow> sstate" where
  "search_models w root_url inst trgexpt trgfreq trgrealm trgfreqname trgvar [] s = s"
| "search_models w root_url inst trgexpt trgfreq trgrealm trgfreqname trgvar (model # rest) s =
     search_models w root_url inst trgexpt trgfreq trgrealm trgfreqname trgvar rest
       (search_expts w root_url inst model trgfreq trgrealm trgfreqname trgvar trgexpt s)"

fun search_insts ::
  "world \<Rightarrow> string \<Rightarrow> string list \<Rightarrow> string \<Rightarrow> string \<Rightarrow> string \<Rightarrow> string list \<Rightarrow>
   string list \<Rightarrow> sstate \<Rightarrow> sstate" where
  "search_insts w root_url trgexpt trgfreq trgrealm trgfreqname trgvar [] s = s"
| "search_insts w root_url trgexpt trgfreq trgrealm trgfreqname trgvar (inst # rest) s =
     (case dirs_logged w s (root_url @ inst @ ''/catalog.xml'') of
        (Inl e, s') \<Rightarrow>
          search_insts w root_url trgexpt trgfreq trgrealm trgfreqname trgvar rest
            (s'\<lparr>handled := Suc (handled s')\<rparr>)
      | (Inr models, s') \<Rightarrow>
          search_insts w root_url trgexpt trgfreq trgrealm trgfreqname trgvar rest
            (search_models w root_url inst trgexpt trgfreq trgrealm trgfreqname trgvar models s'))"

text \<open>
  The function: the listing of the institutions is not inside a \<open>try\<close>, and neither is
  the \<open>with\<close> statement that prints \<open>found_files\<close> into the log file
  \<open>CCMI-1_search.log\<close> before the function returns them. The result is the final
  state and the returned \<open>found_files\<close>, or the exception.
\<close>

definition search_inventory_ccmi1 ::
  "world \<Rightarrow> disk \<Rightarrow> string \<Rightarrow> string list \<Rightarrow> string list \<Rightarrow> string \<Rightarrow> string \<Rightarrow> string \<Rightarrow>
   sstate \<times> (pyerr + string list)" where
  "search_inventory_ccmi1 w dk root_url trgexpt trgvar trgfreq trgrealm trgfreqname =
     (case dirs_logged w \<lparr>calls = [], found_files = [], handled = 0\<rparr> (root_url @ ''catalog.xml'') of
        (Inl e, s) \<Rightarrow> (s, Inl e)
      | (Inr instts, s) \<Rightarrow>
          (let s' = search_insts w root_url trgexpt trgfreq trgrealm trgfreqname trgvar instts s
           in case print_to dk ''CCMI-1_search.log'' (found_files s') of
                (written, Some e) \<Rightarrow> (s', Inl e)
              | (written, None) \<Rightarrow> (s', Inr (found_files s'))))"

section \<open>The download loops\<close>

subsection \<open>Paths and file names\<close>

text \<open>\<open>os.path.basename\<close>, \<open>os.path.dirname\<close> and \<open>os.path.join\<close> of \<open>posixpath\<close>.\<close>

definition basename :: "string \<Rightarrow> string" where
  "basename p = rev (takeWhile (\<lambda>c. c \<noteq> CHR ''/'') (rev p))"

definition dirname :: "string \<Rightarrow> string" where
  "dirname p =
     (let head = rev (dropWhile (\<lambda>c. c \<noteq> CHR ''/'') (rev p)) in
      if head \<noteq> [] \<and> \<not> list_all (\<lambda>c. c = CHR ''/'') head
      then rev (dropWhile (\<lambda>c. c = CHR ''/'') (rev head))
      else head)"

definition join2 :: "string \<Rightarrow> string \<Rightarrow> string" where
  "join2 path b =
     (if b \<noteq> [] \<and> hd b = CHR ''/'' then b
      else if path = [] \<or> last path = CHR ''/'' then path @ b
      else path @ ''/'' @ b)"

definition path_join :: "string \<Rightarrow> string \<Rightarrow> string \<Rightarrow> string" where
  "path_join a b c = join2 (join2 a b) c"

text \<open>\<open>s.split(c)\<close> for a one-character separator.\<close>

fun split_on :: "char \<Rightarrow> string \<Rightarrow> string list" where
  "split_on c [] = [[]]"
| "split_on c (x # xs) =
     (if x = c then [] # split_on c xs
      else (case split_on c xs of [] \<Rightarrow> [[x]] | f # fs \<Rightarrow> (x # f) # fs))"

text \<open>
  The destination of a remote file:
  \<open>downloaddir/<fourth field of the file name>/<file name>\<close>; a file name with fewer
  than four fields raises \<open>IndexError\<close>.
\<close>

definition destfile_of :: "string \<Rightarrow> string \<Rightarrow> pyerr + string" where
  "destfile_of downloaddir afile =
     (let destfilebase = basename afile in
      bnd (nth_checked (split_on CHR ''_'' destfilebase) 3) (\<lambda>experiment.
        Inr (path_join downloaddir experiment destfilebase)))"

definition fileURL_of :: "string \<Rightarrow> string" where
  "fileURL_of afile = ''https://dap.ceda.ac.uk/'' @ afile"

subsection \<open>The local file system and the server\<close>

text \<open>
  The local file system, as far as the loops observe it: the regular files with their
  bytes and the directories. \<open>os.makedirs(d, exist_ok=True)\<close> raises when \<open>d\<close> is
  empty, and otherwise when the environment refuses it (a regular file in the way, the
  permissions); \<open>open(p, 'wb')\<close> raises when \<open>p\<close> is a directory, when its
  directory does not exist, or when the environment refuses it. \<open>session.get\<close> raises
  a \<open>RequestException\<close> or returns a response with a status code and a content.
\<close>

record fsys =
  files :: "string \<Rightarrow> string option"
  dirs :: "string set"

datatype get_outcome = RequestException_raised | Response nat string

record env =
  net :: "string \<Rightarrow> get_outcome"
  makedirs_fails :: "string \<Rightarrow> bool"
  open_fails :: "string \<Rightarrow> bool"

definition path_exists :: "fsys \<Rightarrow> string \<Rightarrow> bool" where
  "path_exists fs p = (files fs p \<noteq> None \<or> p \<in> dirs fs)"

definition makedirs :: "env \<Rightarrow> string \<Rightarrow> fsys \<Rightarrow> pyerr + fsys" where
  "makedirs ev d fs =
     (if d = [] then Inl FileNotFoundError
      else if makedirs_fails ev d then Inl OSError
      else Inr (fs\<lparr>dirs := insert d (dirs fs)\<rparr>))"

definition write_file :: "env \<Rightarrow> string \<Rightarrow> string \<Rightarrow> fsys \<Rightarrow> pyerr + fsys" where
  "write_file ev p content fs =
     (if p \<in> dirs fs then Inl IsADirectoryError
      else if dirname p \<noteq> [] \<and> dirname p \<notin> dirs fs then Inl FileNotFoundError
      else if open_fails ev p then Inl OSError
      else Inr (fs\<lparr>files := (files fs)(p \<mapsto> content)\<rparr>))"

text \<open>
  What the loop prints (the first three only when \<open>verbose\<close>), the requests sent to
  the server, and the file system.
\<close>

datatype event =
    Skipping string
  | Downloading string
  | Destination string
  | Downloaded string
  | Download_failed string
  | Unexpected_error string

record dstate =
  fs :: fsys
  requests :: "string list"
  stdout :: "event list"

record settings =
  downloaddir :: string
  OverwriteExistingFile :: bool
  verbose :: bool

definition say :: "bool \<Rightarrow> event list \<Rightarrow> dstate \<Rightarrow> dstate" where
  "say on es st = (if on then st\<lparr>stdout := stdout st @ es\<rparr> else st)"

text \<open>
  \<open>for afile in filelist\<close>: the turns are taken in order, and an exception that
  leaves a turn (\<open>Some e\<close>) ends the loop and the script.
\<close>

fun for_each ::
  "(string \<Rightarrow> dstate \<Rightarrow> dstate \<times> pyerr option) \<Rightarrow> string list \<Rightarrow> dstate \<Rightarrow> dstate \<times> pyerr option" where
  "for_each body [] st = (st, None)"
| "for_each body (afile # rest) st =
     (case body afile st of
        (st', Some e) \<Rightarrow> (st', Some e)
      | (st', None) \<Rightarrow> for_each body rest st')"

subsection \<open>CCMI-1\<close>

text \<open>
  The \<open>try\<close> block: the request, \<open>raise_for_status\<close> (a status from 400 to 599 raises
  \<open>HTTPError\<close>, a \<open>RequestException\<close>), then the file is opened and written. The first
  handler takes the \<open>RequestException\<close>s, the second every other exception.
\<close>

definition transfer_ccmi1 :: "env \<Rightarrow> string \<Rightarrow> string \<Rightarrow> dstate \<Rightarrow> dstate" where
  "transfer_ccmi1 ev fileURL destfile st =
     (let st1 = st\<lparr>requests := requests st @ [fileURL]\<rparr> in
      case net ev fileURL of
        RequestException_raised \<Rightarrow> say True [Download_failed fileURL] st1
      | Response status content \<Rightarrow>
          if 400 \<le> status \<and> status < 600 then say True [Download_failed fileURL] st1
          else (case write_file ev destfile content (fs st1) of
                  Inl e \<Rightarrow> say True [Unexpected_error fileURL] st1
                | Inr fs' \<Rightarrow> say True [Downloaded destfile] (st1\<lparr>fs := fs'\<rparr>)))"

text \<open>
  One turn of \<open>for afile in filelist\<close>. \<open>Some e\<close> in the second component is an
  exception that no handler takes.
\<close>

definition download_one_ccmi1 :: "env \<Rightarrow> settings \<Rightarrow> string \<Rightarrow> dstate \<Rightarrow> dstate \<times> pyerr option" where
  "download_one_ccmi1 ev cfg afile st =
     (case destfile_of (downloaddir cfg) afile of
        Inl e \<Rightarrow> (st, Some e)
      | Inr destfile \<Rightarrow>
         (case makedirs ev (dirname destfile) (fs st) of
            Inl e \<Rightarrow> (st, Some e)
          | Inr fs' \<Rightarrow>
             (let st1 = st\<lparr>fs := fs'\<rparr> in
              if \<not> OverwriteExistingFile cfg \<and> path_exists (fs st1) destfile
              then (say (verbose cfg) [Skipping destfile] st1, None)
              else (transfer_ccmi1 ev (fileURL_of afile) destfile
                      (say (verbose cfg) [Downloading (fileURL_of afile), Destination destfile] st1),
                    None))))"

definition download_ccmi1 :: "env \<Rightarrow> settings \<Rightarrow> string list \<Rightarrow> dstate \<Rightarrow> dstate \<times> pyerr option" where
  "download_ccmi1 ev cfg filelist st = for_each (download_one_ccmi1 ev cfg) filelist st"

subsection \<open>CCMI-2022\<close>

text \<open>
  No directory is made and the status is not looked at: whatever the server
  returns is written. The bare \<open>except:\<close> takes every exception.
\<close>

definition transfer_ccmi2022 :: "env \<Rightarrow> string \<Rightarrow> string \<Rightarrow> dstate \<Rightarrow> dstate" where
  "transfer_ccmi2022 ev fileURL destfile st =
     (let st1 = st\<lparr>requests := requests st @ [fileURL]\<rparr> in
      case net ev fileURL of
        RequestException_raised \<Rightarrow> say True [Download_failed fileURL] st1
      | Response status content \<Rightarrow>
          (case write_file ev destfile content (fs st1) of
             Inl e \<Rightarrow> say True [Download_failed fileURL] st1
           | Inr fs' \<Rightarrow> say True [Downloaded destfile] (st1\<lparr>fs := fs'\<rparr>)))"

definition download_one_ccmi2022 :: "env \<Rightarrow> settings \<Rightarrow> string \<Rightarrow> dstate \<Rightarrow> dstate \<times> pyerr option" where
  "download_one_ccmi2022 ev cfg afile st =
     (case destfile_of (downloaddir cfg) afile of
        Inl e \<Rightarrow> (st, Some e)
      | Inr destfile \<Rightarrow>
          if \<not> OverwriteExistingFile cfg \<and> path_exists (fs st) destfile
          then (say (verbose cfg) [Skipping destfile] st, None)
          else (transfer_ccmi2022 ev (fileURL_of afile) destfile
                  (say (verbose cfg) [Downloading (fileURL_of afile), Destination destfile] st),
                None))"

definition download_ccmi2022 :: "env \<Rightarrow> settings \<Rightarrow> string list \<Rightarrow> dstate \<Rightarrow> dstate \<times> pyerr option" where
  "download_ccmi2022 ev cfg filelist st = for_each (download_one_ccmi2022 ev cfg) filelist st"

section \<open>The FTP script: the version directory and the retrieval\<close>

text \<open>
  A line of \<open>mlsd()\<close> is a name with its facts. The directories of a listing are the
  names whose \<open>type\<close> fact is \<open>dir\<close>, the files those whose \<open>type\<close> is \<open>file\<close>;
  \<open>properties['type']\<close> raises \<open>KeyError\<close> when the fact is missing.
\<close>

type_synonym mlsd_line = "string \<times> (string \<times> string) list"

fun names_of_type :: "string \<Rightarrow> mlsd_line list \<Rightarrow> pyerr + string list" where
  "names_of_type ty [] = Inr []"
| "names_of_type ty ((name, properties) # rest) =
     (case map_of properties ''type'' of
        None \<Rightarrow> Inl KeyError
      | Some t \<Rightarrow>
          bnd (names_of_type ty rest) (\<lambda>ns. Inr (if t = ty then name # ns else ns)))"


text \<open>
  \<open>for dfile in lfiles: ftpc.retrbinary('RETR %s' % dfile, open(dfile, "wb").write)\<close>.
  The local file is opened (and emptied) before the command is sent; the server
  answers a command with the content or with an error, and no handler surrounds the
  call. The state is the local files and the commands sent.
\<close>

record ftp_state =
  local_files :: "string \<Rightarrow> string option"
  commands :: "string list"

fun ftp_retrieve ::
  "(string \<Rightarrow> pyerr + string) \<Rightarrow> string list \<Rightarrow> ftp_state \<Rightarrow> ftp_state \<times> pyerr option" where
  "ftp_retrieve retr [] st = (st, None)"
| "ftp_retrieve retr (dfile # rest) st =
     (let st1 = st\<lparr>local_files := (local_files st)(dfile \<mapsto> []),
                   commands := commands st @ [''RETR '' @ dfile]\<rparr> in
      case retr (''RETR '' @ dfile) of
        Inl e \<Rightarrow> (st1, Some e)
      | Inr content \<Rightarrow>
          ftp_retrieve retr rest (st1\<lparr>local_files := (local_files st1)(dfile \<mapsto> content)\<rparr>))"

definition ftp_download :: "(string \<Rightarrow> pyerr + string) \<Rightarrow> mlsd_line list \<Rightarrow> ftp_state \<Rightarrow> ftp_state \<times> pyerr option" where
  "ftp_download retr inner_list st =
     (case names_of_type ''file'' inner_list of
        Inl e \<Rightarrow> (st, Some e)
      | Inr lfiles \<Rightarrow> ftp_retrieve retr lfiles st)"

section \<open>Stub servers\<close>

text \<open>
  A THREDDS catalogue whose dataset holds one \<open>catalogRef\<close> per name, and one whose
  dataset holds one file \<open>dataset\<close> per path; a server that answers the listed URLs
  with such catalogues at the first attempt and raises \<open>HTTPError\<close> for every other
  URL; a server that raises \<open>HTTPError\<close> at every attempt for every URL.
\<close>

definition thredds :: "string \<Rightarrow> string" where
  "thredds l = ''{http://www.unidata.ucar.edu/namespaces/thredds/InvCatalog/v1.0}'' @ l"

definition dir_catalog :: "string list \<Rightarrow> body" where
  "dir_catalog names =
     Document (Element (thredds ''catalog'') []
       [Element (thredds ''dataset'') []
          (map (\<lambda>n. Element (thredds ''catalogRef'') [(title_attr, n)] []) names)])"

definition file_catalog :: "string list \<Rightarrow> body" where
  "file_catalog paths =
     Document (Element (thredds ''catalog'') []
       [Element (thredds ''dataset'') []
          (map (\<lambda>p. Element (thredds ''dataset'') [(''urlPath'', p)] []) paths)])"

definition unreachable :: world where
  "unreachable url ntry = HTTPError_raised"

text \<open>
  A working directory in which every file can be written, and one in which the name
  of the CCMI-2022 log file is taken by a directory.
\<close>

definition writable :: disk where
  "writable name = Printed"


definition stub :: "(string \<times> body) list \<Rightarrow> world" where
  "stub tbl url ntry = (case map_of tbl url of None \<Rightarrow> HTTPError_raised | Some b \<Rightarrow> Opened b)"



text \<open>An institution with two models, each with one experiment that has no run.\<close>

definition two_models :: world where
  "two_models = stub
     [(''r/catalog.xml'', dir_catalog [''I'']),
      (''r/I/catalog.xml'', dir_catalog [''A'', ''B'']),
      (''r/I/A/catalog.xml'', dir_catalog [''e1'']),
      (''r/I/B/catalog.xml'', dir_catalog [''e2'']),
      (''r/I/A/e1/catalog.xml'', dir_catalog []),
      (''r/I/B/e2/catalog.xml'', dir_catalog [])]"

text \<open>
  Two files to download into \<open>dl\<close>, without overwriting; a local file system that has
  the first of them; a server that raises for the second file and delivers every other
  one, with a file system that refuses nothing.
\<close>

definition keep_files :: settings where
  "keep_files = \<lparr>downloaddir = ''dl'', OverwriteExistingFile = False, verbose = True\<rparr>"

definition two_files :: "string list" where
  "two_files = [''p/zmcly_mon_M_refC1_r1i1p1_1.nc'', ''p/o3_mon_M_refC1_r1i1p1_1.nc'']"

definition have_one :: dstate where
  "have_one =
     \<lparr>fs = \<lparr>files = [''dl/refC1/zmcly_mon_M_refC1_r1i1p1_1.nc'' \<mapsto> ''old''],
             dirs = {''dl'', ''dl/refC1''}\<rparr>,
      requests = [], stdout = []\<rparr>"

definition flaky :: env where
  "flaky =
     \<lparr>net = (\<lambda>u. if u = ''https://dap.ceda.ac.uk/p/o3_mon_M_refC1_r1i1p1_1.nc''
                  then RequestException_raised else Response 200 ''new''),
      makedirs_fails = (\<lambda>d. False),
      open_fails = (\<lambda>p. False)\<rparr>"

text \<open>
  A server that answers every request with the status 404, and a local file system
  in which no file can be opened for writing, under a server that delivers every file.
\<close>

definition not_found :: env where
  "not_found =
     \<lparr>net = (\<lambda>u. Response 404 []), makedirs_fails = (\<lambda>d. False), open_fails = (\<lambda>p. False)\<rparr>"

definition read_only :: env where
  "read_only =
     \<lparr>net = (\<lambda>u. Response 200 ''new''), makedirs_fails = (\<lambda>d. False), open_fails = (\<lambda>p. True)\<rparr>"

text \<open>An FTP server that refuses the file \<open>a.nc\<close>, and an empty local directory.\<close>

definition refuses_a :: "string \<Rightarrow> pyerr + string" where
  "refuses_a c = (if c = ''RETR a.nc'' then Inl FTPError else Inr ''data'')"

definition ftp_start :: ftp_state where
  "ftp_start = \<lparr>local_files = Map.empty, commands = []\<rparr>"

text \<open>
  A CCMI-1 archive with two institutions: \<open>InstA/ModelA\<close> has the experiments
  \<open>refC1\<close> and \<open>refC2\<close>, \<open>InstB/ModelB\<close> has \<open>refC1\<close>. The monthly atmospheric
  variable \<open>zmcly\<close> of \<open>InstA/ModelA/refC1\<close> has one file; \<open>InstB/ModelB/refC1\<close>
  has monthly data for the ocean only.
\<close>

definition two_institutions :: world where
  "two_institutions = stub
     [(''r/catalog.xml'', dir_catalog [''InstA'', ''InstB'']),
      (''r/InstA/catalog.xml'', dir_catalog [''ModelA'']),
      (''r/InstB/catalog.xml'', dir_catalog [''ModelB'']),
      (''r/InstA/ModelA/catalog.xml'', dir_catalog [''refC1'', ''refC2'']),
      (''r/InstB/ModelB/catalog.xml'', dir_catalog [''refC1'']),
      (''r/InstA/ModelA/refC1/mon/catalog.xml'', dir_catalog [''atmos'']),
      (''r/InstA/ModelA/refC2/mon/catalog.xml'', dir_catalog [''atmos'']),
      (''r/InstB/ModelB/refC1/mon/catalog.xml'', dir_catalog [''ocean'']),
      (''r/InstA/ModelA/refC1/mon/atmos/catalog.xml'', dir_catalog [''monthly'']),
      (''r/InstA/ModelA/refC1/mon/atmos/monthly/catalog.xml'', dir_catalog [''r1i1p1'']),
      (''r/InstA/ModelA/refC1/mon/atmos/monthly/r1i1p1/catalog.xml'', dir_catalog [''v1'']),
      (''r/InstA/ModelA/refC1/mon/atmos/monthly/r1i1p1/v1/catalog.xml'', dir_catalog [''zmcly'']),
      (''r/InstA/ModelA/refC1/mon/atmos/monthly/r1i1p1/v1/zmcly/catalog.xml'',
         file_catalog [''p/zmcly_mon_ModelA_refC1_r1i1p1_195001-200012.nc''])]"

section \<open>What a finished batch looks like\<close>

text \<open>
  The ways a transfer fails. The request is \<open>refused\<close> when \<open>session.get\<close> raises,
  and in CCMI-1 (\<open>strict\<close>, the script that calls \<open>raise_for_status\<close>) also when the
  status is from 400 to 599. The transfer of \<open>u\<close> to \<open>d\<close> \<open>fails\<close> in a file system
  when the request is refused or the content cannot be written to \<open>d\<close> there. The
  line the script prints for a failure: CCMI-1 prints \<open>Unexpected error\<close> for a
  failure that is not a refusal, and \<open>Download failed\<close> is printed otherwise.
\<close>

definition refused :: "bool \<Rightarrow> get_outcome \<Rightarrow> bool" where
  "refused strict r =
     (case r of
        RequestException_raised \<Rightarrow> True
      | Response status content \<Rightarrow> strict \<and> 400 \<le> status \<and> status < 600)"

definition fails :: "bool \<Rightarrow> env \<Rightarrow> fsys \<Rightarrow> string \<Rightarrow> string \<Rightarrow> bool" where
  "fails strict ev fsy u d =
     (case net ev u of
        RequestException_raised \<Rightarrow> True
      | Response status content \<Rightarrow>
          (strict \<and> 400 \<le> status \<and> status < 600)
          \<or> (case write_file ev d content fsy of Inl e \<Rightarrow> True | Inr fsy' \<Rightarrow> False))"

definition failure_report :: "bool \<Rightarrow> env \<Rightarrow> string \<Rightarrow> event" where
  "failure_report strict ev u =
     (if strict \<and> \<not> refused strict (net ev u) then Unexpected_error u else Download_failed u)"

text \<open>
  \<open>batch_done strict ev dd filelist st st'\<close>: the run from \<open>st\<close> to \<open>st'\<close> has only
  added to the requests and to the output, and every file of the list has a
  destination and is accounted for. A file that was not requested in this run has its
  destination present at the end. A file that was requested and refused is reported
  with \<open>Download failed\<close> in the output of this run. A file that was requested and not
  refused is reported as failed, or it is reported as downloaded and its destination
  is a file at the end.
\<close>

definition batch_done :: "bool \<Rightarrow> env \<Rightarrow> string \<Rightarrow> string list \<Rightarrow> dstate \<Rightarrow> dstate \<Rightarrow> bool" where
  "batch_done strict ev dd filelist st st' =
     (let new = drop (length (requests st)) (requests st');
          out = drop (length (stdout st)) (stdout st')
      in requests st' = requests st @ new \<and> stdout st' = stdout st @ out
         \<and> list_all (\<lambda>f.
               case destfile_of dd f of
                 Inl e \<Rightarrow> False
               | Inr d \<Rightarrow>
                   if fileURL_of f \<in> set new
                   then if refused strict (net ev (fileURL_of f))
                        then Download_failed (fileURL_of f) \<in> set out
                        else failure_report strict ev (fileURL_of f) \<in> set out
                             \<or> (Downloaded d \<in> set out \<and> files (fs st') d \<noteq> None)
                   else path_exists (fs st') d) filelist)"

text \<open>
  \<open>turn ev cfg a st st' e\<close>: what one turn of either loop for the file \<open>a\<close> does.
  It sends at most the request for \<open>a\<close>, and with overwriting disabled only when
  the destination of \<open>a\<close> was absent; a request that raised is reported; a turn that
  ends without an exception has requested \<open>a\<close> or found its destination; nothing that
  exists disappears, and with overwriting disabled no existing file changes.
\<close>

definition turn :: "env \<Rightarrow> settings \<Rightarrow> string \<Rightarrow> dstate \<Rightarrow> dstate \<Rightarrow> pyerr option \<Rightarrow> bool" where
  "turn ev cfg a st st' e =
     ((\<exists>new out.
         requests st' = requests st @ new \<and> set new \<subseteq> {fileURL_of a}
         \<and> stdout st' = stdout st @ out
         \<and> (\<forall>u\<in>set new. net ev u = RequestException_raised \<longrightarrow> Download_failed u \<in> set out)
         \<and> (\<not> OverwriteExistingFile cfg \<and> new \<noteq> [] \<longrightarrow>
              (\<exists>d. destfile_of (downloaddir cfg) a = Inr d \<and> \<not> path_exists (fs st) d))
         \<and> (e = None \<longrightarrow>
              (\<exists>d. destfile_of (downloaddir cfg) a = Inr d
                 \<and> (fileURL_of a \<in> set new \<or> path_exists (fs st') d))))
      \<and> (\<forall>p. path_exists (fs st) p \<longrightarrow> path_exists (fs st') p)
      \<and> (\<not> OverwriteExistingFile cfg \<longrightarrow>
           (\<forall>p. path_exists (fs st) p \<longrightarrow> files (fs st') p = files (fs st) p)))"

section \<open>Where the live search may list\<close>

text \<open>
  The names a listing returned, and the URLs the CCMI-1 search may hand to
  \<open>get_elements\<close> when it looks for the experiments \<open>trgexpt\<close>: the root catalogue,
  the catalogue of an institution the root lists, and whatever lies under
  \<open>institution/model/experiment/\<close> for a model the institution lists and an
  experiment of \<open>trgexpt\<close>.
\<close>

definition names_of :: "pyerr + string list \<Rightarrow> string list" where
  "names_of r = (case r of Inl e \<Rightarrow> [] | Inr xs \<Rightarrow> xs)"

definition allowed_url :: "world \<Rightarrow> string \<Rightarrow> string list \<Rightarrow> string \<Rightarrow> bool" where
  "allowed_url w root_url trgexpt url =
     (url = root_url @ ''catalog.xml''
      \<or> (\<exists>inst\<in>set (names_of (listing_ccmi1 w (root_url @ ''catalog.xml''))).
            url = root_url @ inst @ ''/catalog.xml''
            \<or> (\<exists>model\<in>set (names_of (listing_ccmi1 w (root_url @ inst @ ''/catalog.xml''))).
                 \<exists>expt\<in>set trgexpt.
                   prefix (root_url @ inst @ ''/'' @ model @ ''/'' @ expt @ ''/'') url)))"

definition no_slash :: "string \<Rightarrow> bool" where
  "no_slash s = (CHR ''/'' \<notin> set s)"

text \<open>
  \<open>adds P s s'\<close>: from \<open>s\<close> to \<open>s'\<close> the search entered no handler and made calls
  only for URLs that satisfy \<open>P\<close>.
\<close>

definition adds :: "(string \<Rightarrow> bool) \<Rightarrow> sstate \<Rightarrow> sstate \<Rightarrow> bool" where
  "adds P s s' =
     (handled s' = handled s \<and> (\<forall>u\<in>set (calls s'). u \<in> set (calls s) \<or> P u))"

section \<open>The counts of an inventory\<close>

text \<open>
  In the list \<open>invntry[ii][1]\<close> a model is a string and an experiment is a
  one-element list. \<open>counted ms es v\<close>: the entry \<open>v\<close> of an institution holds as
  many models as \<open>ms\<close> has names and as many experiments as the lists of \<open>es\<close>
  have names together.
\<close>

definition is_name :: "pyval \<Rightarrow> bool" where
  "is_name v = (case v of Str s \<Rightarrow> True | Lst xs \<Rightarrow> False)"

definition counted :: "string \<Rightarrow> string list \<Rightarrow> string list list \<Rightarrow> pyval \<Rightarrow> bool" where
  "counted i ms es v =
     (case v of
        Lst [Str i', Lst items] \<Rightarrow>
          i' = i \<and> length (filter is_name items) = length ms
          \<and> length (filter (\<lambda>x. \<not> is_name x) items) = length (concat es)
      | _ \<Rightarrow> False)"

section \<open>The version a search takes its files from\<close>

text \<open>
  \<open>picked w a b c\<close>: three calls of \<open>get_elements\<close> that belong together. \<open>a\<close> is
  the catalogue of a variable, \<open>b\<close> the catalogue of the first directory that \<open>a\<close>
  lists, and \<open>c\<close> the catalogue of the directory under it that \<open>vertrg_of\<close> chooses
  among the names that \<open>b\<close> lists.
\<close>

definition picked :: "world \<Rightarrow> string \<Rightarrow> string \<Rightarrow> string \<Rightarrow> bool" where
  "picked w a b c =
     (case (listing_ccmi2022 w a, listing_ccmi2022 w b) of
        (Inr ldirs, Inr vers) \<Rightarrow>
          (case vertrg_of vers of
             Inl e \<Rightarrow> False
           | Inr vertrg \<Rightarrow>
               ldirs \<noteq> []
               \<and> (let base = take (length a - length ''/catalog.xml'') a in
                    a = base @ ''/catalog.xml''
                    \<and> b = base @ ''/'' @ hd ldirs @ ''/catalog.xml''
                    \<and> c = base @ ''/'' @ hd ldirs @ ''/'' @ vertrg @ ''/catalog.xml''))
      | _ \<Rightarrow> False)"

text \<open>
  \<open>versioned w cs\<close>: the calls \<open>cs\<close> are such triples, one after the other, so that
  every listing of files is the listing of the chosen version.
\<close>

fun versioned :: "world \<Rightarrow> call list \<Rightarrow> bool" where
  "versioned w [] = True"
| "versioned w (Dirs a # Dirs b # Files c # rest) = (picked w a b c \<and> versioned w rest)"
| "versioned w cs = False"

text \<open>
  The files that the listings of files among the calls returned, and the files that
  \<open>flist\<close> holds: the strings in the second element of its entries.
\<close>

definition listed_files :: "world \<Rightarrow> call list \<Rightarrow> string list" where
  "listed_files w cs =
     concat (map (\<lambda>c. case c of Dirs u \<Rightarrow> [] | Files u \<Rightarrow> names_of (files_ccmi2022 w u)) cs)"

fun strs :: "pyval list \<Rightarrow> string list" where
  "strs [] = []"
| "strs (Str s # vs) = s # strs vs"
| "strs (Lst xs # vs) = strs vs"

definition files_of_entry :: "pyval \<Rightarrow> string list" where
  "files_of_entry e = (case e of Lst (n # Lst fls # r) \<Rightarrow> strs fls | _ \<Rightarrow> [])"

definition files_in :: "pyval \<Rightarrow> string list" where
  "files_in fl = (case fl of Str s \<Rightarrow> [] | Lst es \<Rightarrow> concat (map files_of_entry es))"

text \<open>
  \<open>grows w s s'\<close>: from \<open>s\<close> to \<open>s'\<close> the search has made such triples of calls, and
  \<open>flist\<close> has gained the files that their listings of files returned, and no other.
\<close>

definition grows :: "world \<Rightarrow> search \<Rightarrow> search \<Rightarrow> bool" where
  "grows w s s' =
     (\<exists>new. asked s' = asked s @ new \<and> versioned w new
        \<and> set (files_in (flist s')) = set (files_in (flist s)) \<union> set (listed_files w new))"

section \<open>Basic facts\<close>

lemma bnd_Inl [simp]: "bnd (Inl e) f = Inl e"
  by (simp add: bnd_def)

lemma bnd_Inr [simp]: "bnd (Inr x) f = f x"
  by (simp add: bnd_def)

section \<open>Properties of the listing calls\<close>

lemma upt_5: "[0..<5] = [0, 1, 2, 3, 4::nat]"
  by (simp add: upt_rec)

lemma urlopen_loop_ccmi1_le: "fst (urlopen_loop_ccmi1 w url ns) \<le> length ns"
  by (induction ns) (auto split: open_outcome.splits prod.splits)

lemma urlopen_loop_ccmi2022_le: "fst (urlopen_loop_ccmi2022 w url ns) \<le> length ns"
  by (induction ns) (auto split: open_outcome.splits prod.splits)

lemma get_elements_ccmi1_attempts: "fst (get_elements_ccmi1 w url t1 t2 a) \<le> 5"
  using urlopen_loop_ccmi1_le [of w url "[0..<5]"]
  by (auto simp: get_elements_ccmi1_def split: prod.splits)

lemma get_elements_ccmi2022_attempts: "fst (get_elements_ccmi2022 w url t1 t2 a) \<le> 5"
  using urlopen_loop_ccmi2022_le [of w url "[0..<5]"]
  by (auto simp: get_elements_ccmi2022_def split: prod.splits)


text \<open>
  C1. Every listing call makes at most five attempts and, when all of them fail,
  returns the empty list instead of raising. The CCMI-1 \<open>get_elements\<close> does so
  (\<open>get_elements_ccmi1_attempts\<close>, \<open>get_elements_ccmi1_all_fail\<close>). The CCMI-2022
  \<open>get_elements\<close> does not: after five \<open>HTTPError\<close>s it has made its five attempts
  and then raises \<open>UnboundLocalError\<close>, whatever the tags and the attribute.
\<close>

theorem get_elements_ccmi2022_exhausted_raises:
  "get_elements_ccmi2022 unreachable url t1 t2 a = (5, Inl UnboundLocalError)"
  by (simp add: get_elements_ccmi2022_def upt_5 unreachable_def)

section \<open>The inventory build\<close>









text \<open>
  C6. The claim has the builder produce, for every stub, an inventory whose counts are
  the child counts of the stub. The CCMI-2022 builder produces none when an
  institution has two models: the experiments are inserted into \<open>invntry[ii][1]\<close>,
  the list of the model names, and the next level then reads the second model at
  \<open>invntry[ii][2]\<close>, which does not exist. Here the stub has the institution \<open>I\<close>
  with the models \<open>A\<close> and \<open>B\<close>; the build raises \<open>IndexError\<close> and writes no file.
  The counts that the first two levels do record are those of the listings
  (\<open>build_expts_counts\<close> below).
\<close>

theorem create_inventory_file_ccmi2022_two_models:
  "create_inventory_file_ccmi2022 two_models dk ''CCMI-2022_archive_202504031936'' ''r/'' =
     ([], Inl IndexError)"
  by code_simp

section \<open>CCMI-2022: the search\<close>





section \<open>The version directory\<close>

declare str_nat.simps [simp del]























section \<open>The downloads\<close>

lemma say_simps [simp]:
  "fs (say on es st) = fs st" "requests (say on es st) = requests st"
  "stdout (say on es st) = stdout st @ (if on then es else [])"
  by (simp_all add: say_def)

lemma write_file_frame:
  "write_file ev p c fsy = Inr fsy' \<Longrightarrow>
   dirs fsy' = dirs fsy \<and> files fsy' = (files fsy)(p \<mapsto> c)"
  by (auto simp: write_file_def split: if_splits)

lemma makedirs_frame:
  "makedirs ev d fsy = Inr fsy' \<Longrightarrow> files fsy' = files fsy \<and> dirs fsy' = insert d (dirs fsy)"
  by (auto simp: makedirs_def split: if_splits)

lemma makedirs_ok:
  "d \<noteq> [] \<Longrightarrow> \<not> makedirs_fails ev d \<Longrightarrow> \<exists>fsy'. makedirs ev d fsy = Inr fsy'"
  by (simp add: makedirs_def)

text \<open>What one transfer does to the state.\<close>

lemma transfer_ccmi1_effect:
  "requests (transfer_ccmi1 ev u d st) = requests st @ [u]
   \<and> dirs (fs (transfer_ccmi1 ev u d st)) = dirs (fs st)
   \<and> (\<forall>p. p \<noteq> d \<longrightarrow> files (fs (transfer_ccmi1 ev u d st)) p = files (fs st) p)
   \<and> (files (fs st) d \<noteq> None \<longrightarrow> files (fs (transfer_ccmi1 ev u d st)) d \<noteq> None)
   \<and> (\<exists>out. stdout (transfer_ccmi1 ev u d st) = stdout st @ out
        \<and> (net ev u = RequestException_raised \<longrightarrow> Download_failed u \<in> set out))"
  by (auto simp: transfer_ccmi1_def Let_def dest!: write_file_frame
      split: get_outcome.splits sum.splits)

lemma transfer_ccmi2022_effect:
  "requests (transfer_ccmi2022 ev u d st) = requests st @ [u]
   \<and> dirs (fs (transfer_ccmi2022 ev u d st)) = dirs (fs st)
   \<and> (\<forall>p. p \<noteq> d \<longrightarrow> files (fs (transfer_ccmi2022 ev u d st)) p = files (fs st) p)
   \<and> (files (fs st) d \<noteq> None \<longrightarrow> files (fs (transfer_ccmi2022 ev u d st)) d \<noteq> None)
   \<and> (\<exists>out. stdout (transfer_ccmi2022 ev u d st) = stdout st @ out
        \<and> (net ev u = RequestException_raised \<longrightarrow> Download_failed u \<in> set out))"
  by (auto simp: transfer_ccmi2022_def Let_def dest!: write_file_frame
      split: get_outcome.splits sum.splits)

lemma turn_skip:
  assumes "destfile_of (downloaddir cfg) a = Inr d" "path_exists (fs st') d"
    "requests st' = requests st" "stdout st' = stdout st @ out"
    "files (fs st') = files (fs st)" "dirs (fs st) \<subseteq> dirs (fs st')"
  shows "turn ev cfg a st st' None"
  unfolding turn_def using assms
  by (auto simp: path_exists_def intro!: exI [of _ "[]"])

lemma turn_abort:
  "turn ev cfg a st st (Some e)"
  unfolding turn_def by (auto intro!: exI [of _ "[]"])

lemma turn_transfer:
  assumes d: "destfile_of (downloaddir cfg) a = Inr d"
    and ow: "\<not> OverwriteExistingFile cfg \<longrightarrow> \<not> path_exists (fs st) d \<and> \<not> path_exists (fs stm) d"
    and r: "requests st' = requests st @ [fileURL_of a]"
    and o: "stdout st' = stdout st @ outa @ outb"
      "net ev (fileURL_of a) = RequestException_raised \<longrightarrow> Download_failed (fileURL_of a) \<in> set outb"
    and f1: "files (fs stm) = files (fs st)" "dirs (fs st) \<subseteq> dirs (fs stm)"
    and f2: "dirs (fs st') = dirs (fs stm)" "\<forall>p. p \<noteq> d \<longrightarrow> files (fs st') p = files (fs stm) p"
      "files (fs stm) d \<noteq> None \<longrightarrow> files (fs st') d \<noteq> None"
  shows "turn ev cfg a st st' None"
proof -
  have ex: "\<forall>p. path_exists (fs st) p \<longrightarrow> path_exists (fs st') p"
    using f1 f2 by (auto simp: path_exists_def)
  have fr: "\<not> OverwriteExistingFile cfg \<longrightarrow>
           (\<forall>p. path_exists (fs st) p \<longrightarrow> files (fs st') p = files (fs st) p)"
  proof (intro impI allI)
    fix p
    assume "\<not> OverwriteExistingFile cfg" "path_exists (fs st) p"
    with ow have "p \<noteq> d" by auto
    with f1 f2 show "files (fs st') p = files (fs st) p" by simp
  qed
  show ?thesis
    unfolding turn_def using d ow r o ex fr
    by (intro conjI exI [of _ "[fileURL_of a]"] exI [of _ "outa @ outb"]) auto
qed


lemma one_ccmi1_turn:
  assumes "download_one_ccmi1 ev cfg a st = (st', e)"
  shows "turn ev cfg a st st' e"
proof (cases "destfile_of (downloaddir cfg) a")
  case (Inl x)
  with assms show ?thesis by (auto simp: download_one_ccmi1_def turn_abort)
next
  case (Inr d)
  show ?thesis
  proof (cases "makedirs ev (dirname d) (fs st)")
    case (Inl x)
    with Inr assms show ?thesis by (auto simp: download_one_ccmi1_def turn_abort)
  next
    case mk: (Inr fsy)
    note fr = makedirs_frame [OF mk]
    let ?st1 = "st\<lparr>fs := fsy\<rparr>"
    show ?thesis
    proof (cases "\<not> OverwriteExistingFile cfg \<and> path_exists fsy d")
      case True
      with Inr mk assms have st': "st' = say (verbose cfg) [Skipping d] ?st1" and e: "e = None"
        by (auto simp: download_one_ccmi1_def)
      show ?thesis unfolding st' e
        using Inr True fr by (intro turn_skip [where d = d]) auto
    next
      case False
      let ?st2 = "say (verbose cfg) [Downloading (fileURL_of a), Destination d] ?st1"
      from False Inr mk assms
      have st': "st' = transfer_ccmi1 ev (fileURL_of a) d ?st2" and e: "e = None"
        by (auto simp: download_one_ccmi1_def Let_def)
      from transfer_ccmi1_effect [of ev "fileURL_of a" d ?st2]
      obtain out where out: "stdout st' = stdout ?st2 @ out"
        "net ev (fileURL_of a) = RequestException_raised \<longrightarrow> Download_failed (fileURL_of a) \<in> set out"
        unfolding st' by blast
      have nx: "\<not> OverwriteExistingFile cfg \<longrightarrow> \<not> path_exists (fs st) d \<and> \<not> path_exists (fs ?st2) d"
        using False fr by (auto simp: path_exists_def)
      show ?thesis unfolding e
      proof (rule turn_transfer [where d = d and stm = ?st2
              and outa = "if verbose cfg then [Downloading (fileURL_of a), Destination d] else []"
              and outb = out])
        show "destfile_of (downloaddir cfg) a = Inr d" by (rule Inr)
        show "\<not> OverwriteExistingFile cfg \<longrightarrow> \<not> path_exists (fs st) d \<and> \<not> path_exists (fs ?st2) d"
          by (rule nx)
        show "requests st' = requests st @ [fileURL_of a]"
          unfolding st' using transfer_ccmi1_effect [of ev "fileURL_of a" d ?st2] by simp
        show "stdout st' = stdout st @ (if verbose cfg then [Downloading (fileURL_of a), Destination d] else []) @ out"
          using out(1) by simp
        show "net ev (fileURL_of a) = RequestException_raised \<longrightarrow> Download_failed (fileURL_of a) \<in> set out"
          by (rule out(2))
        show "files (fs ?st2) = files (fs st)" using fr by simp
        show "dirs (fs st) \<subseteq> dirs (fs ?st2)" using fr by auto
        show "dirs (fs st') = dirs (fs ?st2)"
          unfolding st' using transfer_ccmi1_effect [of ev "fileURL_of a" d ?st2] by simp
        show "\<forall>p. p \<noteq> d \<longrightarrow> files (fs st') p = files (fs ?st2) p"
          unfolding st' using transfer_ccmi1_effect [of ev "fileURL_of a" d ?st2] by blast
        show "files (fs ?st2) d \<noteq> None \<longrightarrow> files (fs st') d \<noteq> None"
          unfolding st' using transfer_ccmi1_effect [of ev "fileURL_of a" d ?st2] by blast
      qed
    qed
  qed
qed

lemma one_ccmi2022_turn:
  assumes "download_one_ccmi2022 ev cfg a st = (st', e)"
  shows "turn ev cfg a st st' e"
proof (cases "destfile_of (downloaddir cfg) a")
  case (Inl x)
  with assms show ?thesis by (auto simp: download_one_ccmi2022_def turn_abort)
next
  case (Inr d)
  show ?thesis
  proof (cases "\<not> OverwriteExistingFile cfg \<and> path_exists (fs st) d")
    case True
    with Inr assms have st': "st' = say (verbose cfg) [Skipping d] st" and e: "e = None"
      by (auto simp: download_one_ccmi2022_def)
    show ?thesis unfolding st' e
      using Inr True by (intro turn_skip [where d = d]) auto
  next
    case False
    let ?st2 = "say (verbose cfg) [Downloading (fileURL_of a), Destination d] st"
    from False Inr assms
    have st': "st' = transfer_ccmi2022 ev (fileURL_of a) d ?st2" and e: "e = None"
      by (auto simp: download_one_ccmi2022_def Let_def)
    from transfer_ccmi2022_effect [of ev "fileURL_of a" d ?st2]
    obtain out where out: "stdout st' = stdout ?st2 @ out"
      "net ev (fileURL_of a) = RequestException_raised \<longrightarrow> Download_failed (fileURL_of a) \<in> set out"
      unfolding st' by blast
    show ?thesis unfolding e
    proof (rule turn_transfer [where d = d and stm = ?st2
            and outa = "if verbose cfg then [Downloading (fileURL_of a), Destination d] else []"
            and outb = out])
      show "destfile_of (downloaddir cfg) a = Inr d" by (rule Inr)
      show "\<not> OverwriteExistingFile cfg \<longrightarrow> \<not> path_exists (fs st) d \<and> \<not> path_exists (fs ?st2) d"
        using False by auto
      show "requests st' = requests st @ [fileURL_of a]"
        unfolding st' using transfer_ccmi2022_effect [of ev "fileURL_of a" d ?st2] by simp
      show "stdout st' = stdout st @ (if verbose cfg then [Downloading (fileURL_of a), Destination d] else []) @ out"
        using out(1) by simp
      show "net ev (fileURL_of a) = RequestException_raised \<longrightarrow> Download_failed (fileURL_of a) \<in> set out"
        by (rule out(2))
      show "files (fs ?st2) = files (fs st)" by simp
      show "dirs (fs st) \<subseteq> dirs (fs ?st2)" by simp
      show "dirs (fs st') = dirs (fs ?st2)"
        unfolding st' using transfer_ccmi2022_effect [of ev "fileURL_of a" d ?st2] by simp
      show "\<forall>p. p \<noteq> d \<longrightarrow> files (fs st') p = files (fs ?st2) p"
        unfolding st' using transfer_ccmi2022_effect [of ev "fileURL_of a" d ?st2] by blast
      show "files (fs ?st2) d \<noteq> None \<longrightarrow> files (fs st') d \<noteq> None"
        unfolding st' using transfer_ccmi2022_effect [of ev "fileURL_of a" d ?st2] by blast
    qed
  qed
qed

text \<open>A turn whose file has a destination, and whose directory can be made, ends without an exception.\<close>

lemma one_ccmi1_no_abort:
  "destfile_of (downloaddir cfg) a = Inr d \<Longrightarrow> dirname d \<noteq> [] \<Longrightarrow> \<not> makedirs_fails ev (dirname d) \<Longrightarrow>
   snd (download_one_ccmi1 ev cfg a st) = None"
  by (simp add: download_one_ccmi1_def makedirs_def Let_def)

lemma one_ccmi2022_no_abort:
  "destfile_of (downloaddir cfg) a = Inr d \<Longrightarrow> snd (download_one_ccmi2022 ev cfg a st) = None"
  by (simp add: download_one_ccmi2022_def)


lemma fileURL_of_inj: "fileURL_of a = fileURL_of b \<Longrightarrow> a = b"
  by (simp add: fileURL_of_def)

text \<open>The loop, from the turns.\<close>

lemma for_each_turns:
  assumes body: "\<And>a st st' e. body a st = (st', e) \<Longrightarrow> turn ev cfg a st st' e"
  shows "for_each body fl st = (st', e) \<Longrightarrow>
    (\<exists>new out.
        requests st' = requests st @ new \<and> stdout st' = stdout st @ out
        \<and> (\<forall>u\<in>set new. net ev u = RequestException_raised \<longrightarrow> Download_failed u \<in> set out)
        \<and> (\<not> OverwriteExistingFile cfg \<longrightarrow>
             (\<forall>u\<in>set new. \<exists>a d. u = fileURL_of a \<and> destfile_of (downloaddir cfg) a = Inr d
                 \<and> \<not> path_exists (fs st) d))
        \<and> (e = None \<longrightarrow>
             (\<forall>f\<in>set fl. \<exists>d. destfile_of (downloaddir cfg) f = Inr d
                 \<and> (fileURL_of f \<in> set new \<or> path_exists (fs st') d))))
    \<and> (\<forall>p. path_exists (fs st) p \<longrightarrow> path_exists (fs st') p)
    \<and> (\<not> OverwriteExistingFile cfg \<longrightarrow>
         (\<forall>p. path_exists (fs st) p \<longrightarrow> files (fs st') p = files (fs st) p))"
proof (induction fl arbitrary: st)
  case Nil
  then show ?case by (auto intro!: exI [of _ "[]"])
next
  case (Cons a fl)
  obtain sta ea where step: "body a st = (sta, ea)" by (cases "body a st")
  from body [OF step] obtain newa outa where t:
    "requests sta = requests st @ newa" "set newa \<subseteq> {fileURL_of a}"
    "stdout sta = stdout st @ outa"
    "\<forall>u\<in>set newa. net ev u = RequestException_raised \<longrightarrow> Download_failed u \<in> set outa"
    "\<not> OverwriteExistingFile cfg \<and> newa \<noteq> [] \<longrightarrow>
       (\<exists>d. destfile_of (downloaddir cfg) a = Inr d \<and> \<not> path_exists (fs st) d)"
    "ea = None \<longrightarrow> (\<exists>d. destfile_of (downloaddir cfg) a = Inr d
        \<and> (fileURL_of a \<in> set newa \<or> path_exists (fs sta) d))"
    and ex: "\<forall>p. path_exists (fs st) p \<longrightarrow> path_exists (fs sta) p"
    and fr: "\<not> OverwriteExistingFile cfg \<longrightarrow>
         (\<forall>p. path_exists (fs st) p \<longrightarrow> files (fs sta) p = files (fs st) p)"
    unfolding turn_def by blast
  have ta: "\<not> OverwriteExistingFile cfg \<longrightarrow>
             (\<forall>u\<in>set newa. \<exists>b d. u = fileURL_of b \<and> destfile_of (downloaddir cfg) b = Inr d
                 \<and> \<not> path_exists (fs st) d)"
    using t(2,5) by (cases newa) auto
  show ?case
  proof (cases ea)
    case (Some x)
    with step Cons.prems have "st' = sta" "e = Some x" by auto
    with t ta ex fr show ?thesis
      by (intro conjI exI [of _ newa] exI [of _ outa]) auto
  next
    case None
    with step Cons.prems have rest: "for_each body fl sta = (st', e)" by simp
    from Cons.IH [OF rest] obtain newb outb where r:
      "requests st' = requests sta @ newb" "stdout st' = stdout sta @ outb"
      "\<forall>u\<in>set newb. net ev u = RequestException_raised \<longrightarrow> Download_failed u \<in> set outb"
      "\<not> OverwriteExistingFile cfg \<longrightarrow>
             (\<forall>u\<in>set newb. \<exists>a d. u = fileURL_of a \<and> destfile_of (downloaddir cfg) a = Inr d
                 \<and> \<not> path_exists (fs sta) d)"
      "e = None \<longrightarrow>
             (\<forall>f\<in>set fl. \<exists>d. destfile_of (downloaddir cfg) f = Inr d
                 \<and> (fileURL_of f \<in> set newb \<or> path_exists (fs st') d))"
      and ex': "\<forall>p. path_exists (fs sta) p \<longrightarrow> path_exists (fs st') p"
      and fr': "\<not> OverwriteExistingFile cfg \<longrightarrow>
         (\<forall>p. path_exists (fs sta) p \<longrightarrow> files (fs st') p = files (fs sta) p)"
      by blast
    have c1: "requests st' = requests st @ (newa @ newb)" using t(1) r(1) by simp
    have c2: "stdout st' = stdout st @ (outa @ outb)" using t(3) r(2) by simp
    have c3: "\<forall>u\<in>set (newa @ newb). net ev u = RequestException_raised \<longrightarrow>
                Download_failed u \<in> set (outa @ outb)"
      using t(4) r(3) by auto
    have c4: "\<not> OverwriteExistingFile cfg \<longrightarrow>
             (\<forall>u\<in>set (newa @ newb). \<exists>a d. u = fileURL_of a \<and> destfile_of (downloaddir cfg) a = Inr d
                 \<and> \<not> path_exists (fs st) d)"
      using ta r(4) ex by (auto; blast)
    have c5: "e = None \<longrightarrow>
             (\<forall>f\<in>set (a # fl). \<exists>d. destfile_of (downloaddir cfg) f = Inr d
                 \<and> (fileURL_of f \<in> set (newa @ newb) \<or> path_exists (fs st') d))"
      using t(6) None r(5) ex' by (auto; blast)
    have c6: "\<forall>p. path_exists (fs st) p \<longrightarrow> path_exists (fs st') p" using ex ex' by blast
    have c7: "\<not> OverwriteExistingFile cfg \<longrightarrow>
         (\<forall>p. path_exists (fs st) p \<longrightarrow> files (fs st') p = files (fs st) p)"
      using fr fr' ex by auto
    from c1 c2 c3 c4 c5 c6 c7 show ?thesis by blast
  qed
qed

lemma for_each_no_abort:
  "(\<And>a st. a \<in> set fl \<Longrightarrow> snd (body a st) = None) \<Longrightarrow> snd (for_each body fl st) = None"
proof (induction fl arbitrary: st)
  case Nil
  then show ?case by simp
next
  case (Cons a fl)
  obtain sta ea where step: "body a st = (sta, ea)" by (cases "body a st")
  with Cons.prems [of a st] have "ea = None" by simp
  with step Cons show ?case by simp
qed

lemma for_each_skip:
  assumes body: "\<And>a st st' e. body a st = (st', e) \<Longrightarrow> turn ev cfg a st st' e"
    and ow: "\<not> OverwriteExistingFile cfg"
    and d: "destfile_of (downloaddir cfg) afile = Inr d" "path_exists (fs st) d"
  shows "files (fs (fst (for_each body fl st))) d = files (fs st) d
    \<and> count_list (requests (fst (for_each body fl st))) (fileURL_of afile) =
        count_list (requests st) (fileURL_of afile)"
proof -
  obtain st' e where run: "for_each body fl st = (st', e)" by (cases "for_each body fl st")
  from for_each_turns [of body ev cfg, OF body run] ow obtain new where
    n: "requests st' = requests st @ new"
      "\<forall>u\<in>set new. \<exists>a d. u = fileURL_of a \<and> destfile_of (downloaddir cfg) a = Inr d
                 \<and> \<not> path_exists (fs st) d"
    and fr: "\<forall>p. path_exists (fs st) p \<longrightarrow> files (fs st') p = files (fs st) p"
    by blast
  have "fileURL_of afile \<notin> set new"
  proof
    assume "fileURL_of afile \<in> set new"
    with n(2) obtain a d' where "fileURL_of afile = fileURL_of a"
      "destfile_of (downloaddir cfg) a = Inr d'" "\<not> path_exists (fs st) d'" by blast
    with d fileURL_of_inj [of afile a] show False by simp
  qed
  then have "count_list new (fileURL_of afile) = 0" by (simp add: count_list_0_iff)
  with n(1) fr d(2) run show ?thesis by simp
qed

text \<open>
  C7. With overwriting disabled, a file whose destination exists when the loop starts
  (as a file or as a directory) is never requested, and what is at the destination
  is the same when the loop ends, however the loop ends; in both XML scripts. The
  state \<open>st\<close> is any state, so the loop may as well be the rest of a longer one.
\<close>

theorem existing_destination_is_skipped:
  assumes "\<not> OverwriteExistingFile cfg"
    and "destfile_of (downloaddir cfg) afile = Inr d"
    and "path_exists (fs st) d"
  shows "files (fs (fst (download_ccmi1 ev cfg filelist st))) d = files (fs st) d
    \<and> count_list (requests (fst (download_ccmi1 ev cfg filelist st))) (fileURL_of afile) =
        count_list (requests st) (fileURL_of afile)
    \<and> files (fs (fst (download_ccmi2022 ev cfg filelist st))) d = files (fs st) d
    \<and> count_list (requests (fst (download_ccmi2022 ev cfg filelist st))) (fileURL_of afile) =
        count_list (requests st) (fileURL_of afile)"
  using for_each_skip [of "download_one_ccmi1 ev cfg" ev cfg afile d st filelist,
          OF one_ccmi1_turn assms]
        for_each_skip [of "download_one_ccmi2022 ev cfg" ev cfg afile d st filelist,
          OF one_ccmi2022_turn assms]
  by (simp add: download_ccmi1_def download_ccmi2022_def)

theorem existing_destination_is_skipped_witness:
  "\<not> OverwriteExistingFile keep_files
   \<and> destfile_of (downloaddir keep_files) ''p/zmcly_mon_M_refC1_r1i1p1_1.nc'' =
       Inr ''dl/refC1/zmcly_mon_M_refC1_r1i1p1_1.nc''
   \<and> path_exists (fs have_one) ''dl/refC1/zmcly_mon_M_refC1_r1i1p1_1.nc''
   \<and> files (fs (fst (download_ccmi1 flaky keep_files two_files have_one)))
        ''dl/refC1/zmcly_mon_M_refC1_r1i1p1_1.nc'' = Some ''old''
   \<and> count_list (requests (fst (download_ccmi1 flaky keep_files two_files have_one)))
        (fileURL_of ''p/zmcly_mon_M_refC1_r1i1p1_1.nc'') = 0
   \<and> files (fs (fst (download_ccmi2022 flaky keep_files two_files have_one)))
        ''dl/refC1/zmcly_mon_M_refC1_r1i1p1_1.nc'' = Some ''old''
   \<and> count_list (requests (fst (download_ccmi2022 flaky keep_files two_files have_one)))
        (fileURL_of ''p/zmcly_mon_M_refC1_r1i1p1_1.nc'') = 0"
proof -
  have h1: "\<not> OverwriteExistingFile keep_files" by (simp add: keep_files_def)
  have h2: "destfile_of (downloaddir keep_files) ''p/zmcly_mon_M_refC1_r1i1p1_1.nc'' =
       Inr ''dl/refC1/zmcly_mon_M_refC1_r1i1p1_1.nc''"
    by code_simp
  have h3: "path_exists (fs have_one) ''dl/refC1/zmcly_mon_M_refC1_r1i1p1_1.nc''"
    by (simp add: have_one_def path_exists_def)
  from existing_destination_is_skipped [OF h1 h2 h3, of flaky two_files] h1 h2 h3
  show ?thesis by (simp add: have_one_def)
qed

section \<open>Failing transfers\<close>

text \<open>A transfer that fails prints its report and changes no file.\<close>

lemma transfer_ccmi1_fails:
  "fails True ev (fs st) u d \<Longrightarrow>
   transfer_ccmi1 ev u d st =
     st\<lparr>requests := requests st @ [u], stdout := stdout st @ [failure_report True ev u]\<rparr>"
  by (auto simp: fails_def transfer_ccmi1_def failure_report_def refused_def say_def Let_def
      split: get_outcome.splits sum.splits)

lemma transfer_ccmi2022_fails:
  "fails False ev (fs st) u d \<Longrightarrow>
   transfer_ccmi2022 ev u d st =
     st\<lparr>requests := requests st @ [u], stdout := stdout st @ [failure_report False ev u]\<rparr>"
  by (auto simp: fails_def transfer_ccmi2022_def failure_report_def refused_def say_def Let_def
      split: get_outcome.splits sum.splits)

text \<open>What a transfer prints, whether it fails or not.\<close>

lemma transfer_ccmi1_report:
  "\<exists>out. stdout (transfer_ccmi1 ev u d st) = stdout st @ out
     \<and> (if refused True (net ev u) then Download_failed u \<in> set out
         else failure_report True ev u \<in> set out
              \<or> (Downloaded d \<in> set out \<and> files (fs (transfer_ccmi1 ev u d st)) d \<noteq> None))"
  by (auto simp: transfer_ccmi1_def failure_report_def refused_def Let_def
      dest!: write_file_frame split: get_outcome.splits sum.splits)

lemma transfer_ccmi2022_report:
  "\<exists>out. stdout (transfer_ccmi2022 ev u d st) = stdout st @ out
     \<and> (if refused False (net ev u) then Download_failed u \<in> set out
         else failure_report False ev u \<in> set out
              \<or> (Downloaded d \<in> set out \<and> files (fs (transfer_ccmi2022 ev u d st)) d \<noteq> None))"
  by (auto simp: transfer_ccmi2022_def failure_report_def refused_def Let_def
      dest!: write_file_frame split: get_outcome.splits sum.splits)

text \<open>
  \<open>accounts strict ev dd a st st' e\<close>: a turn for the file \<open>a\<close> keeps the files that
  exist, sends at most the request for \<open>a\<close>, and accounts for it in its output; a
  turn that ends without an exception and without a request found the destination.
\<close>

definition accounts :: "bool \<Rightarrow> env \<Rightarrow> string \<Rightarrow> string \<Rightarrow> dstate \<Rightarrow> dstate \<Rightarrow> pyerr option \<Rightarrow> bool" where
  "accounts strict ev dd a st st' e =
     ((\<forall>p. files (fs st) p \<noteq> None \<longrightarrow> files (fs st') p \<noteq> None)
      \<and> (\<forall>p. path_exists (fs st) p \<longrightarrow> path_exists (fs st') p)
      \<and> (\<exists>new out.
            requests st' = requests st @ new \<and> set new \<subseteq> {fileURL_of a}
            \<and> stdout st' = stdout st @ out
            \<and> (new \<noteq> [] \<longrightarrow>
                  (\<exists>d. destfile_of dd a = Inr d
                     \<and> (if refused strict (net ev (fileURL_of a))
                         then Download_failed (fileURL_of a) \<in> set out
                         else failure_report strict ev (fileURL_of a) \<in> set out
                              \<or> (Downloaded d \<in> set out \<and> files (fs st') d \<noteq> None))))
            \<and> (e = None \<and> new = [] \<longrightarrow>
                  (\<exists>d. destfile_of dd a = Inr d \<and> path_exists (fs st') d))))"

lemma accounts_abort: "accounts strict ev dd a st st (Some e)"
  unfolding accounts_def by (auto intro!: exI [of _ "[]"])

lemma accounts_skip:
  assumes "destfile_of dd a = Inr d" "path_exists (fs st') d"
    "requests st' = requests st" "stdout st' = stdout st @ out"
    "files (fs st') = files (fs st)" "dirs (fs st) \<subseteq> dirs (fs st')"
  shows "accounts strict ev dd a st st' None"
  unfolding accounts_def using assms
  by (auto simp: path_exists_def intro!: exI [of _ "[]"])

lemma one_ccmi1_accounts:
  assumes "download_one_ccmi1 ev cfg a st = (st', e)"
  shows "accounts True ev (downloaddir cfg) a st st' e"
proof (cases "destfile_of (downloaddir cfg) a")
  case (Inl x)
  with assms show ?thesis by (auto simp: download_one_ccmi1_def accounts_abort)
next
  case (Inr d)
  show ?thesis
  proof (cases "makedirs ev (dirname d) (fs st)")
    case (Inl x)
    with Inr assms show ?thesis by (auto simp: download_one_ccmi1_def accounts_abort)
  next
    case mk: (Inr fsy)
    note fr = makedirs_frame [OF mk]
    let ?st1 = "st\<lparr>fs := fsy\<rparr>"
    show ?thesis
    proof (cases "\<not> OverwriteExistingFile cfg \<and> path_exists fsy d")
      case True
      with Inr mk assms have st': "st' = say (verbose cfg) [Skipping d] ?st1" and e: "e = None"
        by (auto simp: download_one_ccmi1_def)
      show ?thesis unfolding st' e
        using Inr True fr by (intro accounts_skip [where d = d]) auto
    next
      case False
      let ?u = "fileURL_of a"
      let ?st2 = "say (verbose cfg) [Downloading ?u, Destination d] ?st1"
      from False Inr mk assms
      have st': "st' = transfer_ccmi1 ev ?u d ?st2" and e: "e = None"
        by (auto simp: download_one_ccmi1_def Let_def)
      note ef = transfer_ccmi1_effect [of ev ?u d ?st2, folded st']
      from transfer_ccmi1_report [of ev ?u d ?st2, folded st']
      obtain out where out: "stdout st' = stdout ?st2 @ out"
        "if refused True (net ev ?u) then Download_failed ?u \<in> set out
         else failure_report True ev ?u \<in> set out
              \<or> (Downloaded d \<in> set out \<and> files (fs st') d \<noteq> None)"
        by blast
      have keep: "\<forall>p. files (fs st) p \<noteq> None \<longrightarrow> files (fs st') p \<noteq> None"
      proof (intro allI impI)
        fix p assume "files (fs st) p \<noteq> None"
        then show "files (fs st') p \<noteq> None" using ef fr by (cases "p = d") auto
      qed
      have ex: "\<forall>p. path_exists (fs st) p \<longrightarrow> path_exists (fs st') p"
        using ef fr keep by (auto simp: path_exists_def)
      have o: "stdout st' = stdout st @ ((if verbose cfg then [Downloading ?u, Destination d] else []) @ out)"
        using out(1) by simp
      have o2: "if refused True (net ev ?u)
         then Download_failed ?u \<in> set ((if verbose cfg then [Downloading ?u, Destination d] else []) @ out)
         else failure_report True ev ?u \<in> set ((if verbose cfg then [Downloading ?u, Destination d] else []) @ out)
              \<or> (Downloaded d \<in> set ((if verbose cfg then [Downloading ?u, Destination d] else []) @ out)
                  \<and> files (fs st') d \<noteq> None)"
        using out(2) by (auto split: if_splits)
      have r: "requests st' = requests st @ [?u]" using ef by simp
      show ?thesis
        unfolding accounts_def e using keep ex r o o2 Inr
        by (intro conjI exI [of _ "[?u]"]
              exI [of _ "(if verbose cfg then [Downloading ?u, Destination d] else []) @ out"]) auto
    qed
  qed
qed



lemma one_ccmi2022_accounts:
  assumes "download_one_ccmi2022 ev cfg a st = (st', e)"
  shows "accounts False ev (downloaddir cfg) a st st' e"
proof (cases "destfile_of (downloaddir cfg) a")
  case (Inl x)
  with assms show ?thesis by (auto simp: download_one_ccmi2022_def accounts_abort)
next
  case (Inr d)
  show ?thesis
  proof (cases "\<not> OverwriteExistingFile cfg \<and> path_exists (fs st) d")
    case True
    with Inr assms have st': "st' = say (verbose cfg) [Skipping d] st" and e: "e = None"
      by (auto simp: download_one_ccmi2022_def)
    show ?thesis unfolding st' e
      using Inr True by (intro accounts_skip [where d = d]) auto
  next
    case False
    let ?u = "fileURL_of a"
    let ?st2 = "say (verbose cfg) [Downloading ?u, Destination d] st"
    from False Inr assms
    have st': "st' = transfer_ccmi2022 ev ?u d ?st2" and e: "e = None"
      by (auto simp: download_one_ccmi2022_def Let_def)
    note ef = transfer_ccmi2022_effect [of ev ?u d ?st2, folded st']
    from transfer_ccmi2022_report [of ev ?u d ?st2, folded st']
    obtain out where out: "stdout st' = stdout ?st2 @ out"
      "if refused False (net ev ?u) then Download_failed ?u \<in> set out
       else failure_report False ev ?u \<in> set out
            \<or> (Downloaded d \<in> set out \<and> files (fs st') d \<noteq> None)"
      by blast
    have keep: "\<forall>p. files (fs st) p \<noteq> None \<longrightarrow> files (fs st') p \<noteq> None"
    proof (intro allI impI)
      fix p assume "files (fs st) p \<noteq> None"
      then show "files (fs st') p \<noteq> None" using ef by (cases "p = d") auto
    qed
    have ex: "\<forall>p. path_exists (fs st) p \<longrightarrow> path_exists (fs st') p"
      using ef keep by (auto simp: path_exists_def)
    have o: "stdout st' = stdout st @ ((if verbose cfg then [Downloading ?u, Destination d] else []) @ out)"
      using out(1) by simp
    have o2: "if refused False (net ev ?u)
       then Download_failed ?u \<in> set ((if verbose cfg then [Downloading ?u, Destination d] else []) @ out)
       else failure_report False ev ?u \<in> set ((if verbose cfg then [Downloading ?u, Destination d] else []) @ out)
            \<or> (Downloaded d \<in> set ((if verbose cfg then [Downloading ?u, Destination d] else []) @ out)
                \<and> files (fs st') d \<noteq> None)"
      using out(2) by (auto split: if_splits)
    have r: "requests st' = requests st @ [?u]" using ef by simp
    show ?thesis
      unfolding accounts_def e using keep ex r o o2 Inr
      by (intro conjI exI [of _ "[?u]"]
            exI [of _ "(if verbose cfg then [Downloading ?u, Destination d] else []) @ out"]) auto
  qed
qed

text \<open>The loop, from the turns that account for their file.\<close>

lemma for_each_accounts:
  assumes body: "\<And>a st st' e. body a st = (st', e) \<Longrightarrow> accounts strict ev dd a st st' e"
  shows "for_each body fl st = (st', e) \<Longrightarrow>
    (\<forall>p. files (fs st) p \<noteq> None \<longrightarrow> files (fs st') p \<noteq> None)
    \<and> (\<forall>p. path_exists (fs st) p \<longrightarrow> path_exists (fs st') p)
    \<and> (\<exists>new out.
          requests st' = requests st @ new \<and> stdout st' = stdout st @ out
          \<and> set new \<subseteq> fileURL_of ` set fl
          \<and> (\<forall>f\<in>set fl. fileURL_of f \<in> set new \<longrightarrow>
                (\<exists>d. destfile_of dd f = Inr d
                   \<and> (if refused strict (net ev (fileURL_of f))
                       then Download_failed (fileURL_of f) \<in> set out
                       else failure_report strict ev (fileURL_of f) \<in> set out
                            \<or> (Downloaded d \<in> set out \<and> files (fs st') d \<noteq> None))))
          \<and> (e = None \<longrightarrow>
                (\<forall>f\<in>set fl. fileURL_of f \<notin> set new \<longrightarrow>
                   (\<exists>d. destfile_of dd f = Inr d \<and> path_exists (fs st') d))))"
proof (induction fl arbitrary: st)
  case Nil
  then show ?case by (auto intro!: exI [of _ "[]"])
next
  case (Cons a fl)
  obtain sta ea where step: "body a st = (sta, ea)" by (cases "body a st")
  from body [OF step] obtain newa outa where t:
    "requests sta = requests st @ newa" "set newa \<subseteq> {fileURL_of a}"
    "stdout sta = stdout st @ outa"
    "newa \<noteq> [] \<longrightarrow>
       (\<exists>d. destfile_of dd a = Inr d
          \<and> (if refused strict (net ev (fileURL_of a))
              then Download_failed (fileURL_of a) \<in> set outa
              else failure_report strict ev (fileURL_of a) \<in> set outa
                   \<or> (Downloaded d \<in> set outa \<and> files (fs sta) d \<noteq> None)))"
    "ea = None \<and> newa = [] \<longrightarrow> (\<exists>d. destfile_of dd a = Inr d \<and> path_exists (fs sta) d)"
    and keep: "\<forall>p. files (fs st) p \<noteq> None \<longrightarrow> files (fs sta) p \<noteq> None"
    and ex: "\<forall>p. path_exists (fs st) p \<longrightarrow> path_exists (fs sta) p"
    unfolding accounts_def by blast
  show ?case
  proof (cases ea)
    case (Some x)
    with step Cons.prems have eq: "st' = sta" "e = Some x" by auto
    have c4: "\<forall>f\<in>set (a # fl). fileURL_of f \<in> set newa \<longrightarrow>
                (\<exists>d. destfile_of dd f = Inr d
                   \<and> (if refused strict (net ev (fileURL_of f))
                       then Download_failed (fileURL_of f) \<in> set outa
                       else failure_report strict ev (fileURL_of f) \<in> set outa
                            \<or> (Downloaded d \<in> set outa \<and> files (fs sta) d \<noteq> None)))"
    proof (intro ballI impI)
      fix f assume "f \<in> set (a # fl)" "fileURL_of f \<in> set newa"
      with t(2) have fa: "f = a" "newa \<noteq> []" using fileURL_of_inj by auto
      from t(4) [THEN mp, OF fa(2)]
      show "\<exists>d. destfile_of dd f = Inr d
                   \<and> (if refused strict (net ev (fileURL_of f))
                       then Download_failed (fileURL_of f) \<in> set outa
                       else failure_report strict ev (fileURL_of f) \<in> set outa
                            \<or> (Downloaded d \<in> set outa \<and> files (fs sta) d \<noteq> None))"
        unfolding fa(1) .
    qed
    have c3: "set newa \<subseteq> fileURL_of ` set (a # fl)" using t(2) by auto
    from t(1,3) c3 c4 keep ex show ?thesis
      unfolding eq by (intro conjI exI [of _ newa] exI [of _ outa]) simp_all
  next
    case None
    with step Cons.prems have rest: "for_each body fl sta = (st', e)" by simp
    from Cons.IH [OF rest] obtain newb outb where r:
      "requests st' = requests sta @ newb" "stdout st' = stdout sta @ outb"
      "set newb \<subseteq> fileURL_of ` set fl"
      "\<forall>f\<in>set fl. fileURL_of f \<in> set newb \<longrightarrow>
                (\<exists>d. destfile_of dd f = Inr d
                   \<and> (if refused strict (net ev (fileURL_of f))
                       then Download_failed (fileURL_of f) \<in> set outb
                       else failure_report strict ev (fileURL_of f) \<in> set outb
                            \<or> (Downloaded d \<in> set outb \<and> files (fs st') d \<noteq> None)))"
      "e = None \<longrightarrow>
                (\<forall>f\<in>set fl. fileURL_of f \<notin> set newb \<longrightarrow>
                   (\<exists>d. destfile_of dd f = Inr d \<and> path_exists (fs st') d))"
      and keep': "\<forall>p. files (fs sta) p \<noteq> None \<longrightarrow> files (fs st') p \<noteq> None"
      and ex': "\<forall>p. path_exists (fs sta) p \<longrightarrow> path_exists (fs st') p"
      by blast
    have c1: "requests st' = requests st @ (newa @ newb)" using t(1) r(1) by simp
    have c2: "stdout st' = stdout st @ (outa @ outb)" using t(3) r(2) by simp
    have c3: "set (newa @ newb) \<subseteq> fileURL_of ` set (a # fl)" using t(2) r(3) by auto
    have c4: "\<forall>f\<in>set (a # fl). fileURL_of f \<in> set (newa @ newb) \<longrightarrow>
                (\<exists>d. destfile_of dd f = Inr d
                   \<and> (if refused strict (net ev (fileURL_of f))
                       then Download_failed (fileURL_of f) \<in> set (outa @ outb)
                       else failure_report strict ev (fileURL_of f) \<in> set (outa @ outb)
                            \<or> (Downloaded d \<in> set (outa @ outb) \<and> files (fs st') d \<noteq> None)))"
    proof (intro ballI impI)
      fix f assume f: "f \<in> set (a # fl)" "fileURL_of f \<in> set (newa @ newb)"
      show "\<exists>d. destfile_of dd f = Inr d
                   \<and> (if refused strict (net ev (fileURL_of f))
                       then Download_failed (fileURL_of f) \<in> set (outa @ outb)
                       else failure_report strict ev (fileURL_of f) \<in> set (outa @ outb)
                            \<or> (Downloaded d \<in> set (outa @ outb) \<and> files (fs st') d \<noteq> None))"
      proof (cases "fileURL_of f \<in> set newa")
        case True
        with t(2) have fa: "f = a" "newa \<noteq> []" using fileURL_of_inj by auto
        from t(4) [THEN mp, OF fa(2)] obtain d where d: "destfile_of dd f = Inr d"
          "if refused strict (net ev (fileURL_of f))
              then Download_failed (fileURL_of f) \<in> set outa
              else failure_report strict ev (fileURL_of f) \<in> set outa
                   \<or> (Downloaded d \<in> set outa \<and> files (fs sta) d \<noteq> None)"
          unfolding fa(1) by blast
        from d keep' show ?thesis by (auto split: if_splits)
      next
        case False
        with f(2) have nb: "fileURL_of f \<in> set newb" by simp
        with r(3) obtain g where "g \<in> set fl" "fileURL_of f = fileURL_of g" by auto
        with fileURL_of_inj have "f \<in> set fl" by auto
        with r(4) nb obtain d where d: "destfile_of dd f = Inr d"
          "if refused strict (net ev (fileURL_of f))
              then Download_failed (fileURL_of f) \<in> set outb
              else failure_report strict ev (fileURL_of f) \<in> set outb
                   \<or> (Downloaded d \<in> set outb \<and> files (fs st') d \<noteq> None)"
          by blast
        then show ?thesis by (auto split: if_splits)
      qed
    qed
    have c5: "e = None \<longrightarrow>
                (\<forall>f\<in>set (a # fl). fileURL_of f \<notin> set (newa @ newb) \<longrightarrow>
                   (\<exists>d. destfile_of dd f = Inr d \<and> path_exists (fs st') d))"
    proof (intro impI ballI)
      fix f assume e: "e = None" and f: "f \<in> set (a # fl)" "fileURL_of f \<notin> set (newa @ newb)"
      show "\<exists>d. destfile_of dd f = Inr d \<and> path_exists (fs st') d"
      proof (cases "f \<in> set fl")
        case True
        with r(5) e f(2) show ?thesis by auto
      next
        case False
        with f(1) have fa: "f = a" by simp
        with f(2) t(2) have "newa = []" by (cases newa) auto
        with t(5) None fa ex' show ?thesis by auto
      qed
    qed
    have c6: "\<forall>p. files (fs st) p \<noteq> None \<longrightarrow> files (fs st') p \<noteq> None" using keep keep' by blast
    have c7: "\<forall>p. path_exists (fs st) p \<longrightarrow> path_exists (fs st') p" using ex ex' by blast
    from c1 c2 c3 c4 c5 c6 c7 show ?thesis
      by (intro conjI exI [of _ "newa @ newb"] exI [of _ "outa @ outb"])
  qed
qed

lemma for_each_done:
  assumes body: "\<And>a st st' e. body a st = (st', e) \<Longrightarrow> accounts strict ev dd a st st' e"
    and na: "snd (for_each body fl st) = None"
  shows "batch_done strict ev dd fl st (fst (for_each body fl st))"
proof -
  obtain st' where run: "for_each body fl st = (st', None)"
    using na by (cases "for_each body fl st") auto
  from for_each_accounts [of body strict ev dd, OF body run] obtain new out where
    n: "requests st' = requests st @ new" "stdout st' = stdout st @ out"
      "\<forall>f\<in>set fl. fileURL_of f \<in> set new \<longrightarrow>
                (\<exists>d. destfile_of dd f = Inr d
                   \<and> (if refused strict (net ev (fileURL_of f))
                       then Download_failed (fileURL_of f) \<in> set out
                       else failure_report strict ev (fileURL_of f) \<in> set out
                            \<or> (Downloaded d \<in> set out \<and> files (fs st') d \<noteq> None)))"
      "\<forall>f\<in>set fl. fileURL_of f \<notin> set new \<longrightarrow>
                   (\<exists>d. destfile_of dd f = Inr d \<and> path_exists (fs st') d)"
    by blast
  have "list_all (\<lambda>f.
               case destfile_of dd f of
                 Inl e \<Rightarrow> False
               | Inr d \<Rightarrow>
                   if fileURL_of f \<in> set new
                   then if refused strict (net ev (fileURL_of f))
                        then Download_failed (fileURL_of f) \<in> set out
                        else failure_report strict ev (fileURL_of f) \<in> set out
                             \<or> (Downloaded d \<in> set out \<and> files (fs st') d \<noteq> None)
                   else path_exists (fs st') d) fl"
    unfolding list_all_iff
  proof
    fix f assume f: "f \<in> set fl"
    show "case destfile_of dd f of
                 Inl e \<Rightarrow> False
               | Inr d \<Rightarrow>
                   if fileURL_of f \<in> set new
                   then if refused strict (net ev (fileURL_of f))
                        then Download_failed (fileURL_of f) \<in> set out
                        else failure_report strict ev (fileURL_of f) \<in> set out
                             \<or> (Downloaded d \<in> set out \<and> files (fs st') d \<noteq> None)
                   else path_exists (fs st') d"
    proof (cases "fileURL_of f \<in> set new")
      case True
      with n(3) f show ?thesis by (auto split: if_splits)
    next
      case False
      with n(4) f show ?thesis by auto
    qed
  qed
  with n(1,2) run show ?thesis
    by (simp add: batch_done_def Let_def)
qed

text \<open>A turn whose transfer fails: the loop goes on with the remaining files.\<close>

lemma download_ccmi1_goes_on:
  assumes "destfile_of (downloaddir cfg) a = Inr d"
    and "makedirs ev (dirname d) (fs st) = Inr fsy"
    and "OverwriteExistingFile cfg \<or> \<not> path_exists fsy d"
    and "fails True ev fsy (fileURL_of a) d"
  shows "download_ccmi1 ev cfg (a # rest) st =
     download_ccmi1 ev cfg rest
       (st\<lparr>fs := fsy, requests := requests st @ [fileURL_of a],
           stdout := stdout st @ (if verbose cfg then [Downloading (fileURL_of a), Destination d] else [])
                       @ [failure_report True ev (fileURL_of a)]\<rparr>)"
proof -
  let ?st2 = "say (verbose cfg) [Downloading (fileURL_of a), Destination d] (st\<lparr>fs := fsy\<rparr>)"
  have f: "fails True ev (fs ?st2) (fileURL_of a) d" using assms(4) by simp
  have "download_one_ccmi1 ev cfg a st = (transfer_ccmi1 ev (fileURL_of a) d ?st2, None)"
    using assms(1-3) by (auto simp: download_one_ccmi1_def Let_def)
  then show ?thesis
    unfolding download_ccmi1_def transfer_ccmi1_fails [OF f]
    by (simp add: say_def)
qed

lemma download_ccmi2022_goes_on:
  assumes "destfile_of (downloaddir cfg) a = Inr d"
    and "OverwriteExistingFile cfg \<or> \<not> path_exists (fs st) d"
    and "fails False ev (fs st) (fileURL_of a) d"
  shows "download_ccmi2022 ev cfg (a # rest) st =
     download_ccmi2022 ev cfg rest
       (st\<lparr>requests := requests st @ [fileURL_of a],
           stdout := stdout st @ (if verbose cfg then [Downloading (fileURL_of a), Destination d] else [])
                       @ [failure_report False ev (fileURL_of a)]\<rparr>)"
proof -
  let ?st2 = "say (verbose cfg) [Downloading (fileURL_of a), Destination d] st"
  have f: "fails False ev (fs ?st2) (fileURL_of a) d" using assms(3) by simp
  have "download_one_ccmi2022 ev cfg a st = (transfer_ccmi2022 ev (fileURL_of a) d ?st2, None)"
    using assms(1,2) by (auto simp: download_one_ccmi2022_def Let_def)
  then show ?thesis
    unfolding download_ccmi2022_def transfer_ccmi2022_fails [OF f]
    by (simp add: say_def)
qed

text \<open>
  C8 (counterexample). The claim has every batch survive the failure of one transfer.
  The FTP script calls \<open>retrbinary\<close> with no handler: when the server refuses the
  first of two files, the exception ends the loop and the second file is never asked
  for.
\<close>

theorem ftp_retrieve_aborts:
  "snd (ftp_retrieve refuses_a [''a.nc'', ''b.nc''] ftp_start) = Some FTPError
   \<and> commands (fst (ftp_retrieve refuses_a [''a.nc'', ''b.nc''] ftp_start)) = [''RETR a.nc'']"
  by (simp add: refuses_a_def ftp_start_def)

text \<open>
  C8 (amended). In the two XML scripts a transfer that fails is reported and skipped,
  and the loop goes on. When the request is refused (it raises, or in CCMI-1 the
  status is from 400 to 599) or the content cannot be written to the destination, the
  turn adds the request and the line of the failure to the state, changes no file, and
  the loop continues with the remaining files. Whatever the server and the file system
  do, the CCMI-2022 loop ends without an exception when every file name has its four
  fields, and the CCMI-1 loop when moreover the directory of every destination can be
  made; then every file of the list is accounted for: it was not requested and its
  destination is present, or it was refused and is reported as failed, or it is
  reported as failed or as downloaded with its file present.
\<close>

theorem transfer_failures_do_not_abort:
  "(destfile_of (downloaddir cfg) a = Inr d \<and> makedirs ev (dirname d) (fs st) = Inr fsy
      \<and> (OverwriteExistingFile cfg \<or> \<not> path_exists fsy d)
      \<and> fails True ev fsy (fileURL_of a) d \<longrightarrow>
      download_ccmi1 ev cfg (a # rest) st =
        download_ccmi1 ev cfg rest
          (st\<lparr>fs := fsy, requests := requests st @ [fileURL_of a],
              stdout := stdout st
                @ (if verbose cfg then [Downloading (fileURL_of a), Destination d] else [])
                @ [failure_report True ev (fileURL_of a)]\<rparr>))
   \<and> (destfile_of (downloaddir cfg) a = Inr d
      \<and> (OverwriteExistingFile cfg \<or> \<not> path_exists (fs st) d)
      \<and> fails False ev (fs st) (fileURL_of a) d \<longrightarrow>
      download_ccmi2022 ev cfg (a # rest) st =
        download_ccmi2022 ev cfg rest
          (st\<lparr>requests := requests st @ [fileURL_of a],
              stdout := stdout st
                @ (if verbose cfg then [Downloading (fileURL_of a), Destination d] else [])
                @ [failure_report False ev (fileURL_of a)]\<rparr>))
   \<and> ((\<forall>f\<in>set filelist. \<exists>d. destfile_of (downloaddir cfg) f = Inr d) \<longrightarrow>
      snd (download_ccmi2022 ev cfg filelist st) = None
      \<and> batch_done False ev (downloaddir cfg) filelist st (fst (download_ccmi2022 ev cfg filelist st)))
   \<and> ((\<forall>f\<in>set filelist. \<exists>d. destfile_of (downloaddir cfg) f = Inr d
            \<and> dirname d \<noteq> [] \<and> \<not> makedirs_fails ev (dirname d)) \<longrightarrow>
      snd (download_ccmi1 ev cfg filelist st) = None
      \<and> batch_done True ev (downloaddir cfg) filelist st (fst (download_ccmi1 ev cfg filelist st)))"
proof (intro conjI impI)
  assume "destfile_of (downloaddir cfg) a = Inr d \<and> makedirs ev (dirname d) (fs st) = Inr fsy
      \<and> (OverwriteExistingFile cfg \<or> \<not> path_exists fsy d)
      \<and> fails True ev fsy (fileURL_of a) d"
  then show "download_ccmi1 ev cfg (a # rest) st =
        download_ccmi1 ev cfg rest
          (st\<lparr>fs := fsy, requests := requests st @ [fileURL_of a],
              stdout := stdout st
                @ (if verbose cfg then [Downloading (fileURL_of a), Destination d] else [])
                @ [failure_report True ev (fileURL_of a)]\<rparr>)"
    by (intro download_ccmi1_goes_on) simp_all
next
  assume "destfile_of (downloaddir cfg) a = Inr d
      \<and> (OverwriteExistingFile cfg \<or> \<not> path_exists (fs st) d)
      \<and> fails False ev (fs st) (fileURL_of a) d"
  then show "download_ccmi2022 ev cfg (a # rest) st =
        download_ccmi2022 ev cfg rest
          (st\<lparr>requests := requests st @ [fileURL_of a],
              stdout := stdout st
                @ (if verbose cfg then [Downloading (fileURL_of a), Destination d] else [])
                @ [failure_report False ev (fileURL_of a)]\<rparr>)"
    by (intro download_ccmi2022_goes_on) simp_all
next
  assume h: "\<forall>f\<in>set filelist. \<exists>d. destfile_of (downloaddir cfg) f = Inr d"
  then have "snd (for_each (download_one_ccmi2022 ev cfg) filelist st) = None"
    by (intro for_each_no_abort) (auto intro: one_ccmi2022_no_abort)
  then show "snd (download_ccmi2022 ev cfg filelist st) = None"
    and "batch_done False ev (downloaddir cfg) filelist st (fst (download_ccmi2022 ev cfg filelist st))"
    using for_each_done [of "download_one_ccmi2022 ev cfg" False ev "downloaddir cfg" filelist st,
            OF one_ccmi2022_accounts]
    by (simp_all add: download_ccmi2022_def)
next
  assume h: "\<forall>f\<in>set filelist. \<exists>d. destfile_of (downloaddir cfg) f = Inr d
            \<and> dirname d \<noteq> [] \<and> \<not> makedirs_fails ev (dirname d)"
  then have "snd (for_each (download_one_ccmi1 ev cfg) filelist st) = None"
    by (intro for_each_no_abort) (auto intro: one_ccmi1_no_abort)
  then show "snd (download_ccmi1 ev cfg filelist st) = None"
    and "batch_done True ev (downloaddir cfg) filelist st (fst (download_ccmi1 ev cfg filelist st))"
    using for_each_done [of "download_one_ccmi1 ev cfg" True ev "downloaddir cfg" filelist st,
            OF one_ccmi1_accounts]
    by (simp_all add: download_ccmi1_def)
qed


theorem transfer_failures_do_not_abort_witness:
  "fails True flaky ((fs have_one)\<lparr>dirs := insert ''dl/refC1'' (dirs (fs have_one))\<rparr>)
      (fileURL_of ''p/o3_mon_M_refC1_r1i1p1_1.nc'') ''dl/refC1/o3_mon_M_refC1_r1i1p1_1.nc''
   \<and> download_ccmi1 flaky keep_files
        [''p/o3_mon_M_refC1_r1i1p1_1.nc'', ''p/ta_mon_M_refC1_r1i1p1_1.nc''] have_one =
      download_ccmi1 flaky keep_files [''p/ta_mon_M_refC1_r1i1p1_1.nc'']
        (have_one\<lparr>fs := (fs have_one)\<lparr>dirs := insert ''dl/refC1'' (dirs (fs have_one))\<rparr>,
           requests := [fileURL_of ''p/o3_mon_M_refC1_r1i1p1_1.nc''],
           stdout := [Downloading (fileURL_of ''p/o3_mon_M_refC1_r1i1p1_1.nc''),
                      Destination ''dl/refC1/o3_mon_M_refC1_r1i1p1_1.nc'',
                      Download_failed (fileURL_of ''p/o3_mon_M_refC1_r1i1p1_1.nc'')]\<rparr>)
   \<and> fails True not_found ((fs have_one)\<lparr>dirs := insert ''dl/refC1'' (dirs (fs have_one))\<rparr>)
      (fileURL_of ''p/o3_mon_M_refC1_r1i1p1_1.nc'') ''dl/refC1/o3_mon_M_refC1_r1i1p1_1.nc''
   \<and> stdout (fst (download_ccmi1 not_found keep_files [''p/o3_mon_M_refC1_r1i1p1_1.nc''] have_one)) =
        [Downloading (fileURL_of ''p/o3_mon_M_refC1_r1i1p1_1.nc''),
         Destination ''dl/refC1/o3_mon_M_refC1_r1i1p1_1.nc'',
         Download_failed (fileURL_of ''p/o3_mon_M_refC1_r1i1p1_1.nc'')]
   \<and> fails True read_only ((fs have_one)\<lparr>dirs := insert ''dl/refC1'' (dirs (fs have_one))\<rparr>)
      (fileURL_of ''p/o3_mon_M_refC1_r1i1p1_1.nc'') ''dl/refC1/o3_mon_M_refC1_r1i1p1_1.nc''
   \<and> stdout (fst (download_ccmi1 read_only keep_files [''p/o3_mon_M_refC1_r1i1p1_1.nc''] have_one)) =
        [Downloading (fileURL_of ''p/o3_mon_M_refC1_r1i1p1_1.nc''),
         Destination ''dl/refC1/o3_mon_M_refC1_r1i1p1_1.nc'',
         Unexpected_error (fileURL_of ''p/o3_mon_M_refC1_r1i1p1_1.nc'')]
   \<and> fails False read_only (fs have_one)
      (fileURL_of ''p/o3_mon_M_refC1_r1i1p1_1.nc'') ''dl/refC1/o3_mon_M_refC1_r1i1p1_1.nc''
   \<and> stdout (fst (download_ccmi2022 read_only keep_files [''p/o3_mon_M_refC1_r1i1p1_1.nc''] have_one)) =
        [Downloading (fileURL_of ''p/o3_mon_M_refC1_r1i1p1_1.nc''),
         Destination ''dl/refC1/o3_mon_M_refC1_r1i1p1_1.nc'',
         Download_failed (fileURL_of ''p/o3_mon_M_refC1_r1i1p1_1.nc'')]
   \<and> snd (download_ccmi2022 flaky keep_files two_files have_one) = None
   \<and> batch_done False flaky (downloaddir keep_files) two_files have_one
        (fst (download_ccmi2022 flaky keep_files two_files have_one))
   \<and> snd (download_ccmi1 flaky keep_files two_files have_one) = None
   \<and> batch_done True flaky (downloaddir keep_files) two_files have_one
        (fst (download_ccmi1 flaky keep_files two_files have_one))"
proof -
  let ?o3 = "''p/o3_mon_M_refC1_r1i1p1_1.nc''"
  let ?d = "''dl/refC1/o3_mon_M_refC1_r1i1p1_1.nc''"
  let ?F = "(fs have_one)\<lparr>dirs := insert ''dl/refC1'' (dirs (fs have_one))\<rparr>"
  have d1: "destfile_of (downloaddir keep_files) ''p/zmcly_mon_M_refC1_r1i1p1_1.nc'' =
       Inr ''dl/refC1/zmcly_mon_M_refC1_r1i1p1_1.nc''"
    by code_simp
  have d2: "destfile_of (downloaddir keep_files) ?o3 = Inr ?d"
    by code_simp
  have n1: "dirname ''dl/refC1/zmcly_mon_M_refC1_r1i1p1_1.nc'' = ''dl/refC1''" by code_simp
  have n2: "dirname ?d = ''dl/refC1''" by code_simp
  have mk: "makedirs flaky (dirname ?d) (fs have_one) = Inr ?F"
    "makedirs not_found (dirname ?d) (fs have_one) = Inr ?F"
    "makedirs read_only (dirname ?d) (fs have_one) = Inr ?F"
    unfolding n2 by (simp_all add: makedirs_def flaky_def not_found_def read_only_def)
  have ow: "OverwriteExistingFile keep_files \<or> \<not> path_exists ?F ?d"
    "OverwriteExistingFile keep_files \<or> \<not> path_exists (fs have_one) ?d"
    by (simp_all add: path_exists_def have_one_def)
  have f1: "fails True flaky ?F (fileURL_of ?o3) ?d"
    by (simp add: fails_def flaky_def fileURL_of_def)
  have f2: "fails True not_found ?F (fileURL_of ?o3) ?d"
    by (simp add: fails_def not_found_def)
  have f3: "fails True read_only ?F (fileURL_of ?o3) ?d"
    unfolding fails_def write_file_def n2 by (simp add: read_only_def have_one_def)
  have f4: "fails False read_only (fs have_one) (fileURL_of ?o3) ?d"
    unfolding fails_def write_file_def n2 by (simp add: read_only_def have_one_def)
  have r1: "failure_report True flaky (fileURL_of ?o3) = Download_failed (fileURL_of ?o3)"
    by (simp add: failure_report_def refused_def flaky_def fileURL_of_def)
  have r2: "failure_report True not_found (fileURL_of ?o3) = Download_failed (fileURL_of ?o3)"
    by (simp add: failure_report_def refused_def not_found_def)
  have r3: "failure_report True read_only (fileURL_of ?o3) = Unexpected_error (fileURL_of ?o3)"
    by (simp add: failure_report_def refused_def read_only_def)
  have r4: "failure_report False read_only (fileURL_of ?o3) = Download_failed (fileURL_of ?o3)"
    by (simp add: failure_report_def)
  have v: "verbose keep_files" "requests have_one = []" "stdout have_one = []"
    by (simp_all add: keep_files_def have_one_def)
  have h2022: "\<forall>f\<in>set two_files. \<exists>d. destfile_of (downloaddir keep_files) f = Inr d"
    using d1 d2 by (simp add: two_files_def)
  have h1: "\<forall>f\<in>set two_files. \<exists>d. destfile_of (downloaddir keep_files) f = Inr d
            \<and> dirname d \<noteq> [] \<and> \<not> makedirs_fails flaky (dirname d)"
    using d1 d2 n1 n2 by (simp add: two_files_def flaky_def)
  note t = transfer_failures_do_not_abort [where cfg = keep_files and a = ?o3 and d = ?d
      and st = have_one and filelist = two_files]
  from t [where ev = flaky and fsy = ?F and rest = "[''p/ta_mon_M_refC1_r1i1p1_1.nc'']"]
    d2 mk(1) ow(1) f1 h2022 h1
  have a: "download_ccmi1 flaky keep_files [?o3, ''p/ta_mon_M_refC1_r1i1p1_1.nc''] have_one =
      download_ccmi1 flaky keep_files [''p/ta_mon_M_refC1_r1i1p1_1.nc'']
        (have_one\<lparr>fs := ?F, requests := [fileURL_of ?o3],
           stdout := [Downloading (fileURL_of ?o3), Destination ?d, Download_failed (fileURL_of ?o3)]\<rparr>)"
    and b: "snd (download_ccmi2022 flaky keep_files two_files have_one) = None"
      "batch_done False flaky (downloaddir keep_files) two_files have_one
        (fst (download_ccmi2022 flaky keep_files two_files have_one))"
      "snd (download_ccmi1 flaky keep_files two_files have_one) = None"
      "batch_done True flaky (downloaddir keep_files) two_files have_one
        (fst (download_ccmi1 flaky keep_files two_files have_one))"
    by (simp_all add: r1 v)
  from t [where ev = not_found and fsy = ?F and rest = "[]"] d2 mk(2) ow(1) f2
  have c: "stdout (fst (download_ccmi1 not_found keep_files [?o3] have_one)) =
        [Downloading (fileURL_of ?o3), Destination ?d, Download_failed (fileURL_of ?o3)]"
    by (simp add: r2 v download_ccmi1_def)
  from t [where ev = read_only and fsy = ?F and rest = "[]"] d2 mk(3) ow f3 f4
  have e: "stdout (fst (download_ccmi1 read_only keep_files [?o3] have_one)) =
        [Downloading (fileURL_of ?o3), Destination ?d, Unexpected_error (fileURL_of ?o3)]"
    and g: "stdout (fst (download_ccmi2022 read_only keep_files [?o3] have_one)) =
        [Downloading (fileURL_of ?o3), Destination ?d, Download_failed (fileURL_of ?o3)]"
    by (simp_all add: r3 r4 v download_ccmi1_def download_ccmi2022_def)
  from f1 a f2 c f3 e f4 g b show ?thesis by (intro conjI)
qed

section \<open>CCMI-1: the listing call and the live search\<close>

lemma resolve_default:
  "resolve_tag cedans (''default:'' @ l) =
     Inr (''{http://www.unidata.ucar.edu/namespaces/thredds/InvCatalog/v1.0}'' @ l)"
  by (simp add: resolve_tag_def cedans_def)

lemma findall_default: "\<exists>cs. findall e (''default:'' @ l) cedans = Inr cs"
  unfolding findall_def resolve_default by simp

lemma collect_ccmi1_default: "\<exists>xs. collect_ccmi1 (''default:'' @ l) a cs = Inr xs"
proof (induction cs)
  case Nil
  then show ?case by simp
next
  case (Cons c cs)
  obtain ws where "findall c (''default:'' @ l) cedans = Inr ws" using findall_default by blast
  with Cons show ?case by auto
qed

lemma get_elements_ccmi1_default:
  "\<exists>xs. snd (get_elements_ccmi1 w url (''default:'' @ l1) (''default:'' @ l2) a) = Inr xs"
proof -
  obtain n r where r: "urlopen_loop_ccmi1 w url [0..<5] = (n, r)"
    by (cases "urlopen_loop_ccmi1 w url [0..<5]")
  show ?thesis
  proof (cases r)
    case (Break_with b)
    show ?thesis
    proof (cases b)
      case Malformed
      with r Break_with show ?thesis by (simp add: get_elements_ccmi1_def)
    next
      case (Document root)
      obtain cs where "findall root (''default:'' @ l1) cedans = Inr cs"
        using findall_default by blast
      with r Break_with Document collect_ccmi1_default [of l2 a cs] show ?thesis
        by (auto simp: get_elements_ccmi1_def)
    qed
  qed (use r in \<open>simp_all add: get_elements_ccmi1_def\<close>)
qed

lemma listing_ccmi1_total: "\<exists>xs. listing_ccmi1 w url = Inr xs"
  using get_elements_ccmi1_default [of w url "''dataset''" "''catalogRef''" title_attr]
  by (simp add: listing_ccmi1_def)

lemma dirs_logged_total:
  "dirs_logged w s url = (Inr (names_of (listing_ccmi1 w url)), s\<lparr>calls := calls s @ [url]\<rparr>)"
  using listing_ccmi1_total [of w url]
  by (auto simp: dirs_logged_def get_elements_logged_def listing_ccmi1_def names_of_def)

lemma files_logged_total:
  "\<exists>xs. get_elements_logged w s url ''default:dataset'' ''default:dataset'' ''urlPath'' =
     (Inr xs, s\<lparr>calls := calls s @ [url]\<rparr>)"
  using get_elements_ccmi1_default [of w url "''dataset''" "''dataset''" "''urlPath''"]
  by (auto simp: get_elements_logged_def)

lemma adds_refl: "adds P s s"
  by (simp add: adds_def)

lemma adds_trans: "adds P s sa \<Longrightarrow> adds P sa sb \<Longrightarrow> adds P s sb"
  by (auto simp: adds_def)

lemma adds_mono: "(\<And>u. P u \<Longrightarrow> Q u) \<Longrightarrow> adds P s s' \<Longrightarrow> adds Q s s'"
  by (auto simp: adds_def)

lemma adds_call: "P url \<Longrightarrow> adds P s (s\<lparr>calls := calls s @ [url]\<rparr>)"
  by (auto simp: adds_def)

lemma adds_call_found: "P url \<Longrightarrow> adds P s (s\<lparr>calls := calls s @ [url], found_files := x\<rparr>)"
  by (auto simp: adds_def)

text \<open>Each loop makes calls only under the path it was given, and enters no handler.\<close>

lemma search_vars_adds:
  "adds (prefix (root_url @ var_path @ ''/'')) s (search_vars w root_url var_path variables trgvar s)"
proof (induction trgvar arbitrary: s)
  case Nil
  then show ?case by (simp add: adds_refl)
next
  case (Cons var rest)
  let ?u = "root_url @ var_path @ ''/'' @ var @ ''/catalog.xml''"
  obtain xs where c: "get_elements_logged w s ?u ''default:dataset'' ''default:dataset'' ''urlPath'' =
     (Inr xs, s\<lparr>calls := calls s @ [?u]\<rparr>)" using files_logged_total by blast
  have p: "prefix (root_url @ var_path @ ''/'') ?u" by simp
  show ?case
  proof (cases "var \<in> set variables")
    case True
    from adds_trans [OF adds_call_found [of "prefix (root_url @ var_path @ ''/'')", OF p] Cons.IH] True c
    show ?thesis by simp
  next
    case False
    with Cons.IH show ?thesis by simp
  qed
qed

lemma search_versions_adds:
  "adds (prefix (root_url @ version_path @ ''/'')) s
     (search_versions w root_url version_path trgvar versions s)"
proof (induction versions arbitrary: s)
  case Nil
  then show ?case by (simp add: adds_refl)
next
  case (Cons version rest)
  let ?P = "prefix (root_url @ version_path @ ''/'')"
  let ?vp = "version_path @ ''/'' @ version"
  let ?u = "root_url @ ?vp @ ''/catalog.xml''"
  let ?s1 = "s\<lparr>calls := calls s @ [?u]\<rparr>"
  have a1: "adds ?P s ?s1" by (rule adds_call) simp
  have a2: "adds ?P ?s1 (search_vars w root_url ?vp (names_of (listing_ccmi1 w ?u)) trgvar ?s1)"
    by (rule adds_mono [OF _ search_vars_adds]) (auto elim: prefix_order.trans [rotated])
  from adds_trans [OF adds_trans [OF a1 a2] Cons.IH]
  show ?case by (simp add: dirs_logged_total Let_def)
qed

lemma search_ensembles_adds:
  "adds (prefix (root_url @ ensemble_path @ ''/'')) s
     (search_ensembles w root_url ensemble_path trgvar ensembles s)"
proof (induction ensembles arbitrary: s)
  case Nil
  then show ?case by (simp add: adds_refl)
next
  case (Cons ensemble rest)
  let ?P = "prefix (root_url @ ensemble_path @ ''/'')"
  let ?vp = "ensemble_path @ ''/'' @ ensemble"
  let ?u = "root_url @ ?vp @ ''/catalog.xml''"
  let ?s1 = "s\<lparr>calls := calls s @ [?u]\<rparr>"
  have a1: "adds ?P s ?s1" by (rule adds_call) simp
  have a2: "adds ?P ?s1
     (search_versions w root_url ?vp trgvar (sort (names_of (listing_ccmi1 w ?u))) ?s1)"
    by (rule adds_mono [OF _ search_versions_adds]) (auto elim: prefix_order.trans [rotated])
  from adds_trans [OF adds_trans [OF a1 a2] Cons.IH]
  show ?case by (simp add: dirs_logged_total Let_def)
qed

lemma search_expt_adds:
  "adds (prefix (root_url @ inst @ ''/'' @ model @ ''/'' @ expt @ ''/'')) s
     (search_expt w root_url inst model trgfreq trgrealm trgfreqname trgvar expt s)"
proof -
  let ?P = "prefix (root_url @ inst @ ''/'' @ model @ ''/'' @ expt @ ''/'')"
  let ?ep = "inst @ ''/'' @ model @ ''/'' @ expt"
  let ?rp = "?ep @ ''/'' @ trgfreq @ ''/'' @ trgrealm"
  let ?np = "?rp @ ''/'' @ trgfreqname"
  let ?u1 = "root_url @ ?ep @ ''/'' @ trgfreq @ ''/catalog.xml''"
  let ?u2 = "root_url @ ?rp @ ''/catalog.xml''"
  let ?u3 = "root_url @ ?np @ ''/catalog.xml''"
  let ?s1 = "s\<lparr>calls := calls s @ [?u1]\<rparr>"
  let ?s2 = "?s1\<lparr>calls := calls ?s1 @ [?u2]\<rparr>"
  let ?s3 = "?s2\<lparr>calls := calls ?s2 @ [?u3]\<rparr>"
  have a1: "adds ?P s ?s1" by (rule adds_call) simp
  have a2: "adds ?P ?s1 ?s2" by (rule adds_call) simp
  have a3: "adds ?P ?s2 ?s3" by (rule adds_call) simp
  have a4: "adds ?P ?s3 (search_ensembles w root_url ?np trgvar (names_of (listing_ccmi1 w ?u3)) ?s3)"
    by (rule adds_mono [OF _ search_ensembles_adds]) (auto elim: prefix_order.trans [rotated])
  note a12 = adds_trans [OF a1 a2]
  note a123 = adds_trans [OF a12 a3]
  note a1234 = adds_trans [OF a123 a4]
  from a1 a12 a123 a1234 show ?thesis
    by (simp add: search_expt_def dirs_logged_total Let_def)
qed


lemma search_expts_adds:
  "set xs \<subseteq> set trgexpt \<Longrightarrow>
   adds (\<lambda>u. \<exists>expt\<in>set trgexpt. prefix (root_url @ inst @ ''/'' @ model @ ''/'' @ expt @ ''/'') u) s
     (search_expts w root_url inst model trgfreq trgrealm trgfreqname trgvar xs s)"
proof (induction xs arbitrary: s)
  case Nil
  then show ?case by (simp add: adds_refl)
next
  case (Cons expt rest)
  let ?P = "\<lambda>u. \<exists>expt\<in>set trgexpt. prefix (root_url @ inst @ ''/'' @ model @ ''/'' @ expt @ ''/'') u"
  have "adds ?P s (search_expt w root_url inst model trgfreq trgrealm trgfreqname trgvar expt s)"
    using Cons.prems by (intro adds_mono [OF _ search_expt_adds]) auto
  from adds_trans [OF this Cons.IH] Cons.prems show ?case by simp
qed

lemma search_models_adds:
  "set ms \<subseteq> set models \<Longrightarrow>
   adds (\<lambda>u. \<exists>model\<in>set models. \<exists>expt\<in>set trgexpt.
            prefix (root_url @ inst @ ''/'' @ model @ ''/'' @ expt @ ''/'') u) s
     (search_models w root_url inst trgexpt trgfreq trgrealm trgfreqname trgvar ms s)"
proof (induction ms arbitrary: s)
  case Nil
  then show ?case by (simp add: adds_refl)
next
  case (Cons model rest)
  let ?P = "\<lambda>u. \<exists>model\<in>set models. \<exists>expt\<in>set trgexpt.
            prefix (root_url @ inst @ ''/'' @ model @ ''/'' @ expt @ ''/'') u"
  have "adds ?P s (search_expts w root_url inst model trgfreq trgrealm trgfreqname trgvar trgexpt s)"
    using Cons.prems by (intro adds_mono [OF _ search_expts_adds]) auto
  from adds_trans [OF this Cons.IH] Cons.prems show ?case by simp
qed

lemma search_insts_adds:
  "set xs \<subseteq> set instts \<Longrightarrow>
   adds (\<lambda>u. \<exists>inst\<in>set instts. u = root_url @ inst @ ''/catalog.xml''
            \<or> (\<exists>model\<in>set (names_of (listing_ccmi1 w (root_url @ inst @ ''/catalog.xml''))).
                 \<exists>expt\<in>set trgexpt.
                   prefix (root_url @ inst @ ''/'' @ model @ ''/'' @ expt @ ''/'') u)) s
     (search_insts w root_url trgexpt trgfreq trgrealm trgfreqname trgvar xs s)"
proof (induction xs arbitrary: s)
  case Nil
  then show ?case by (simp add: adds_refl)
next
  case (Cons inst rest)
  let ?P = "\<lambda>u. \<exists>inst\<in>set instts. u = root_url @ inst @ ''/catalog.xml''
            \<or> (\<exists>model\<in>set (names_of (listing_ccmi1 w (root_url @ inst @ ''/catalog.xml''))).
                 \<exists>expt\<in>set trgexpt.
                   prefix (root_url @ inst @ ''/'' @ model @ ''/'' @ expt @ ''/'') u)"
  let ?u = "root_url @ inst @ ''/catalog.xml''"
  let ?s1 = "s\<lparr>calls := calls s @ [?u]\<rparr>"
  have i: "inst \<in> set instts" using Cons.prems by simp
  have a1: "adds ?P s ?s1" using i by (intro adds_call) auto
  have a2: "adds ?P ?s1 (search_models w root_url inst trgexpt trgfreq trgrealm trgfreqname trgvar
              (names_of (listing_ccmi1 w ?u)) ?s1)"
    using i by (intro adds_mono [OF _ search_models_adds [of _ "names_of (listing_ccmi1 w ?u)"]]) auto
  from adds_trans [OF adds_trans [OF a1 a2] Cons.IH] Cons.prems
  show ?case by (simp add: dirs_logged_total)
qed

lemma search_inventory_ccmi1_calls:
  "handled (fst (search_inventory_ccmi1 w dk root_url trgexpt trgvar trgfreq trgrealm trgfreqname)) = 0
   \<and> (\<forall>url\<in>set (calls (fst (search_inventory_ccmi1 w dk root_url trgexpt trgvar trgfreq trgrealm
              trgfreqname))). allowed_url w root_url trgexpt url)"
proof -
  let ?s0 = "\<lparr>calls = [root_url @ ''catalog.xml''], found_files = [], handled = 0\<rparr>"
  let ?I = "names_of (listing_ccmi1 w (root_url @ ''catalog.xml''))"
  let ?s' = "search_insts w root_url trgexpt trgfreq trgrealm trgfreqname trgvar ?I ?s0"
  have r: "fst (search_inventory_ccmi1 w dk root_url trgexpt trgvar trgfreq trgrealm trgfreqname) = ?s'"
    by (simp add: search_inventory_ccmi1_def dirs_logged_total Let_def split: prod.splits option.splits)
  from search_insts_adds [of ?I ?I root_url w trgexpt ?s0 trgfreq trgrealm trgfreqname trgvar]
  show ?thesis
    unfolding r by (auto simp: adds_def allowed_url_def)
qed

text \<open>Names without a slash can be read back from a path.\<close>

lemma no_slash_cancel:
  assumes "no_slash a" "no_slash b" "a @ CHR ''/'' # x = b @ CHR ''/'' # y"
  shows "a = b \<and> x = y"
proof -
  have tw: "\<And>a x. no_slash a \<Longrightarrow> takeWhile (\<lambda>c. c \<noteq> CHR ''/'') (a @ CHR ''/'' # x) = a"
  proof -
    fix a :: string and x
    assume "no_slash a"
    then have "\<forall>c\<in>set a. c \<noteq> CHR ''/''" by (auto simp: no_slash_def)
    then have "takeWhile (\<lambda>c. c \<noteq> CHR ''/'') (a @ CHR ''/'' # x) =
        a @ takeWhile (\<lambda>c. c \<noteq> CHR ''/'') (CHR ''/'' # x)"
      by (intro takeWhile_append2) simp
    then show "takeWhile (\<lambda>c. c \<noteq> CHR ''/'') (a @ CHR ''/'' # x) = a" by simp
  qed
  have "takeWhile (\<lambda>c. c \<noteq> CHR ''/'') (a @ CHR ''/'' # x) = a"
    using assms(1) by (rule tw)
  moreover have "takeWhile (\<lambda>c. c \<noteq> CHR ''/'') (b @ CHR ''/'' # y) = b"
    using assms(2) by (rule tw)
  ultimately have "a = b" using assms(3) by simp
  with assms(3) show ?thesis by simp
qed

lemma path3_prefix:
  assumes ns: "no_slash i" "no_slash m" "no_slash x" "no_slash i'" "no_slash m'" "no_slash x'"
    and p: "prefix (i @ ''/'' @ m @ ''/'' @ x @ ''/'') (i' @ ''/'' @ m' @ ''/'' @ x' @ ''/'' @ z)"
  shows "x = x'"
proof -
  from p obtain t where t: "i' @ CHR ''/'' # (m' @ ''/'' @ x' @ ''/'' @ z) =
      i @ CHR ''/'' # (m @ ''/'' @ x @ ''/'' @ t)"
    by (auto simp: prefix_def)
  from no_slash_cancel [OF ns(4) ns(1) t] have
    "m' @ CHR ''/'' # (x' @ ''/'' @ z) = m @ CHR ''/'' # (x @ ''/'' @ t)" by simp
  from no_slash_cancel [OF ns(5) ns(2) this] have
    "x' @ CHR ''/'' # z = x @ CHR ''/'' # t" by simp
  from no_slash_cancel [OF ns(6) ns(3) this] show ?thesis by simp
qed

lemma allowed_url_not_under:
  assumes a: "allowed_url w root_url trgexpt url"
    and ns: "no_slash inst" "no_slash model" "no_slash expt"
    and nt: "\<forall>x\<in>set trgexpt. no_slash x"
    and nl: "\<forall>i\<in>set (names_of (listing_ccmi1 w (root_url @ ''catalog.xml''))). no_slash i
            \<and> (\<forall>m\<in>set (names_of (listing_ccmi1 w (root_url @ i @ ''/catalog.xml''))). no_slash m)"
    and e: "expt \<notin> set trgexpt"
  shows "\<not> prefix (root_url @ inst @ ''/'' @ model @ ''/'' @ expt @ ''/'') url"
proof
  let ?B = "inst @ ''/'' @ model @ ''/'' @ expt @ ''/''"
  assume p: "prefix (root_url @ inst @ ''/'' @ model @ ''/'' @ expt @ ''/'') url"
  from a consider
    (root) "url = root_url @ ''catalog.xml''"
    | (inst) i where "i \<in> set (names_of (listing_ccmi1 w (root_url @ ''catalog.xml'')))"
        "url = root_url @ i @ ''/catalog.xml''"
    | (sub) i m x where "i \<in> set (names_of (listing_ccmi1 w (root_url @ ''catalog.xml'')))"
        "m \<in> set (names_of (listing_ccmi1 w (root_url @ i @ ''/catalog.xml'')))"
        "x \<in> set trgexpt" "prefix (root_url @ i @ ''/'' @ m @ ''/'' @ x @ ''/'') url"
    unfolding allowed_url_def by blast
  then show False
  proof cases
    case root
    with p have "prefix ?B ''catalog.xml''" by simp
    then have "set ?B \<subseteq> set ''catalog.xml''" by (rule set_mono_prefix)
    then show False by simp
  next
    case (inst i)
    with p have "prefix ?B (i @ ''/catalog.xml'')" by simp
    then obtain t where "i @ CHR ''/'' # ''catalog.xml'' = inst @ CHR ''/'' # (model @ ''/'' @ expt @ ''/'' @ t)"
      by (auto simp: prefix_def)
    from no_slash_cancel [OF _ ns(1) this] nl inst(1)
    have "''catalog.xml'' = model @ ''/'' @ expt @ ''/'' @ t" by simp
    then have "CHR ''/'' \<in> set ''catalog.xml''" by (metis in_set_conv_decomp append_Cons)
    then show False by simp
  next
    case (sub i m x)
    let ?A = "i @ ''/'' @ m @ ''/'' @ x @ ''/''"
    have nsi: "no_slash i" "no_slash m" "no_slash x" using nl nt sub(1,2,3) by auto
    from prefix_same_cases [OF sub(4) p]
    have "prefix ?A ?B \<or> prefix ?B ?A" by simp
    then have "x = expt"
    proof
      assume "prefix ?A ?B"
      then have "prefix ?A (inst @ ''/'' @ model @ ''/'' @ expt @ ''/'' @ [])" by simp
      from path3_prefix [OF nsi ns this] show ?thesis .
    next
      assume "prefix ?B ?A"
      then have "prefix ?B (i @ ''/'' @ m @ ''/'' @ x @ ''/'' @ [])" by simp
      from path3_prefix [OF ns nsi this] show ?thesis by simp
    qed
    with sub(3) e show False by simp
  qed
qed

text \<open>
  C4. The CCMI-1 search never lists the experiments of a model: under a model it builds
  its paths from the names of \<open>trgexpt\<close>. So every URL it hands to \<open>get_elements\<close> is
  the root catalogue, the catalogue of a listed institution, or lies under
  \<open>institution/model/experiment/\<close> for an experiment of \<open>trgexpt\<close>; and when
  the names have no slash, no call is made under an experiment that is not in
  \<open>trgexpt\<close>, whatever the server lists.
\<close>

theorem live_search_prunes:
  "(\<forall>url\<in>set (calls (fst (search_inventory_ccmi1 w dk root_url trgexpt trgvar trgfreq trgrealm
        trgfreqname))). allowed_url w root_url trgexpt url)
   \<and> (no_slash inst \<and> no_slash model \<and> no_slash expt \<and> expt \<notin> set trgexpt
        \<and> (\<forall>x\<in>set trgexpt. no_slash x)
        \<and> (\<forall>i\<in>set (names_of (listing_ccmi1 w (root_url @ ''catalog.xml''))). no_slash i
              \<and> (\<forall>m\<in>set (names_of (listing_ccmi1 w (root_url @ i @ ''/catalog.xml''))). no_slash m))
      \<longrightarrow> (\<forall>url\<in>set (calls (fst (search_inventory_ccmi1 w dk root_url trgexpt trgvar trgfreq trgrealm
                  trgfreqname))).
             \<not> prefix (root_url @ inst @ ''/'' @ model @ ''/'' @ expt @ ''/'') url))"
  using search_inventory_ccmi1_calls [of w dk root_url trgexpt trgvar trgfreq trgrealm trgfreqname]
    allowed_url_not_under [of w root_url trgexpt _ inst model expt]
  by blast

theorem live_search_prunes_witness:
  "calls (fst (search_inventory_ccmi1 two_institutions writable ''r/'' [''refC1''] [''zmcly'']
       ''mon'' ''atmos'' ''monthly'')) =
     [''r/catalog.xml'', ''r/InstA/catalog.xml'', ''r/InstA/ModelA/refC1/mon/catalog.xml'',
      ''r/InstA/ModelA/refC1/mon/atmos/catalog.xml'',
      ''r/InstA/ModelA/refC1/mon/atmos/monthly/catalog.xml'',
      ''r/InstA/ModelA/refC1/mon/atmos/monthly/r1i1p1/catalog.xml'',
      ''r/InstA/ModelA/refC1/mon/atmos/monthly/r1i1p1/v1/catalog.xml'',
      ''r/InstA/ModelA/refC1/mon/atmos/monthly/r1i1p1/v1/zmcly/catalog.xml'',
      ''r/InstB/catalog.xml'', ''r/InstB/ModelB/refC1/mon/catalog.xml'']
   \<and> allowed_url two_institutions ''r/'' [''refC1''] ''r/InstA/ModelA/refC1/mon/catalog.xml''
   \<and> ''refC2'' \<notin> set [''refC1'']
   \<and> list_all (\<lambda>url. \<not> prefix ''r/InstA/ModelA/refC2/'' url)
        (calls (fst (search_inventory_ccmi1 two_institutions writable ''r/'' [''refC1''] [''zmcly'']
           ''mon'' ''atmos'' ''monthly'')))"
proof -
  let ?run = "search_inventory_ccmi1 two_institutions writable ''r/'' [''refC1''] [''zmcly'']
       ''mon'' ''atmos'' ''monthly''"
  have c: "calls (fst ?run) =
     [''r/catalog.xml'', ''r/InstA/catalog.xml'', ''r/InstA/ModelA/refC1/mon/catalog.xml'',
      ''r/InstA/ModelA/refC1/mon/atmos/catalog.xml'',
      ''r/InstA/ModelA/refC1/mon/atmos/monthly/catalog.xml'',
      ''r/InstA/ModelA/refC1/mon/atmos/monthly/r1i1p1/catalog.xml'',
      ''r/InstA/ModelA/refC1/mon/atmos/monthly/r1i1p1/v1/catalog.xml'',
      ''r/InstA/ModelA/refC1/mon/atmos/monthly/r1i1p1/v1/zmcly/catalog.xml'',
      ''r/InstB/catalog.xml'', ''r/InstB/ModelB/refC1/mon/catalog.xml'']"
    by code_simp
  have l1: "names_of (listing_ccmi1 two_institutions (''r/'' @ ''catalog.xml'')) = [''InstA'', ''InstB'']"
    by code_simp
  have l2: "names_of (listing_ccmi1 two_institutions (''r/'' @ ''InstA'' @ ''/catalog.xml'')) = [''ModelA'']"
    by code_simp
  have l3: "names_of (listing_ccmi1 two_institutions (''r/'' @ ''InstB'' @ ''/catalog.xml'')) = [''ModelB'']"
    by code_simp
  have h: "no_slash ''InstA'' \<and> no_slash ''ModelA'' \<and> no_slash ''refC2'' \<and> ''refC2'' \<notin> set [''refC1'']
        \<and> (\<forall>x\<in>set [''refC1'']. no_slash x)
        \<and> (\<forall>i\<in>set (names_of (listing_ccmi1 two_institutions (''r/'' @ ''catalog.xml''))). no_slash i
              \<and> (\<forall>m\<in>set (names_of (listing_ccmi1 two_institutions (''r/'' @ i @ ''/catalog.xml''))).
                    no_slash m))"
    unfolding l1 using l2 l3 by (simp add: no_slash_def)
  have m: "''r/InstA/ModelA/refC1/mon/catalog.xml'' \<in> set (calls (fst ?run))"
    unfolding c by simp
  note t = live_search_prunes [of two_institutions writable "''r/''" "[''refC1'']" "[''zmcly'']" "''mon''"
         "''atmos''" "''monthly''" "''InstA''" "''ModelA''" "''refC2''"]
  from t m have a: "allowed_url two_institutions ''r/'' [''refC1''] ''r/InstA/ModelA/refC1/mon/catalog.xml''"
    by blast
  from t h have "\<forall>url\<in>set (calls (fst ?run)). \<not> prefix (''r/'' @ ''InstA'' @ ''/'' @ ''ModelA'' @ ''/'' @ ''refC2'' @ ''/'') url"
    by blast
  then have p: "list_all (\<lambda>url. \<not> prefix ''r/InstA/ModelA/refC2/'' url) (calls (fst ?run))"
    by (simp add: list_all_iff)
  from c a p show ?thesis by simp
qed

text \<open>
  C10 (counterexample). The claim has the CCMI-1 \<open>get_elements\<close> return a list for
  every input. A tag whose namespace prefix is not in \<open>cedans\<close> makes \<open>findall\<close>
  raise \<open>SyntaxError\<close>, outside the two \<open>try\<close> blocks, once the catalogue has been
  opened and parsed.
\<close>

theorem get_elements_ccmi1_unknown_prefix:
  "snd (get_elements_ccmi1 two_institutions ''r/catalog.xml'' ''thredds:dataset''
          ''default:catalogRef'' title_attr) = Inl SyntaxError"
  by code_simp

text \<open>
  C10 (amended). With the tags of its call sites, \<open>default:dataset\<close> and then
  \<open>default:catalogRef\<close> or \<open>default:dataset\<close>, the CCMI-1 \<open>get_elements\<close> returns a
  list for every URL, attribute name and server; so \<open>search_inventory_ccmi1\<close> never
  enters one of its \<open>except:\<close> branches, whatever the server and the targets are.
\<close>

theorem get_elements_ccmi1_total:
  "(tag2 = ''default:catalogRef'' \<or> tag2 = ''default:dataset'' \<longrightarrow>
      (\<exists>xs. snd (get_elements_ccmi1 w url ''default:dataset'' tag2 attribute_name) = Inr xs))
   \<and> handled (fst (search_inventory_ccmi1 w dk root_url trgexpt trgvar trgfreq trgrealm trgfreqname)) = 0"
  using get_elements_ccmi1_default [of w url "''dataset''" "''catalogRef''" attribute_name]
    get_elements_ccmi1_default [of w url "''dataset''" "''dataset''" attribute_name]
    search_inventory_ccmi1_calls [of w dk root_url trgexpt trgvar trgfreq trgrealm trgfreqname]
  by auto

theorem get_elements_ccmi1_total_witness:
  "(\<exists>xs. snd (get_elements_ccmi1 unreachable ''r/catalog.xml'' ''default:dataset''
             ''default:catalogRef'' title_attr) = Inr xs)
   \<and> (\<exists>xs. snd (get_elements_ccmi1 two_institutions ''r/catalog.xml'' ''default:dataset''
             ''default:dataset'' ''urlPath'') = Inr xs)
   \<and> handled (fst (search_inventory_ccmi1 two_institutions writable ''r/'' [''refC1''] [''zmcly'']
        ''mon'' ''atmos'' ''monthly'')) = 0"
  using get_elements_ccmi1_total [where ?tag2.0 = "''default:catalogRef''" and w = unreachable
          and url = "''r/catalog.xml''" and attribute_name = title_attr and dk = writable
          and root_url = "''r/''" and trgexpt = "[''refC1'']" and trgvar = "[''zmcly'']"
          and trgfreq = "''mon''" and trgrealm = "''atmos''" and trgfreqname = "''monthly''"]
    get_elements_ccmi1_total [where ?tag2.0 = "''default:dataset''" and w = two_institutions
          and url = "''r/catalog.xml''" and attribute_name = "''urlPath''" and dk = writable
          and root_url = "''r/''" and trgexpt = "[''refC1'']" and trgvar = "[''zmcly'']"
          and trgfreq = "''mon''" and trgrealm = "''atmos''" and trgfreqname = "''monthly''"]
  by simp

section \<open>The counts of the first two levels\<close>

text \<open>
  What the institutions, models and experiments loops leave behind. An entry of
  the inventory is \<open>[institution, items]\<close>; the models loop appends the model names
  to \<open>items\<close> and the experiments loop inserts one list of experiments per model
  among them, so the models of an entry are its names and its experiments are the
  members of its lists (\<open>counted\<close>).
\<close>

lemma filter_list_insert:
  "length (filter P (list_insert k x xs)) = length (filter P xs) + (if P x then 1 else 0)"
proof -
  have "filter P xs = filter P (take k xs) @ filter P (drop k xs)"
    by (metis append_take_drop_id filter_append)
  then show ?thesis by (simp add: list_insert_def)
qed

lemma insert_at_entry:
  assumes "ii < length entries" "entries ! ii = Lst [Str i, Lst items]"
  shows "insert_at (Lst entries) [ii, 1] pos x =
     Inr (Lst (entries[ii := Lst [Str i, Lst (list_insert pos x items)]]))"
  using assms by simp

lemma insert_names_entry:
  assumes "ii < length entries" "entries ! ii = Lst [Str i, Lst items]"
  shows "\<exists>items'. insert_names (Lst entries) [ii, 1] pos names =
           Inr (Lst (entries[ii := Lst [Str i, Lst items']]))
     \<and> length (filter is_name items') = length (filter is_name items)
     \<and> length (filter (\<lambda>x. \<not> is_name x) items') =
         length (filter (\<lambda>x. \<not> is_name x) items) + length names"
  using assms
proof (induction names arbitrary: entries items pos)
  case Nil
  then have "entries[ii := Lst [Str i, Lst items]] = entries" by (metis list_update_id)
  then show ?case by (intro exI [of _ items]) simp
next
  case (Cons x names)
  let ?items1 = "list_insert pos (Lst [Str x]) items"
  let ?e1 = "entries[ii := Lst [Str i, Lst ?items1]]"
  have s: "insert_at (Lst entries) [ii, 1] pos (Lst [Str x]) = Inr (Lst ?e1)"
    using Cons.prems by simp
  have "ii < length ?e1" "?e1 ! ii = Lst [Str i, Lst ?items1]" using Cons.prems by simp_all
  from Cons.IH [OF this, of "Suc pos"] obtain items' where
    r: "insert_names (Lst ?e1) [ii, 1] (Suc pos) names = Inr (Lst (?e1[ii := Lst [Str i, Lst items']]))"
      "length (filter is_name items') = length (filter is_name ?items1)"
      "length (filter (\<lambda>x. \<not> is_name x) items') =
         length (filter (\<lambda>x. \<not> is_name x) ?items1) + length names"
    by blast
  have c1: "length (filter is_name ?items1) = length (filter is_name items)"
    by (simp add: filter_list_insert is_name_def)
  have c2: "length (filter (\<lambda>x. \<not> is_name x) ?items1) =
      length (filter (\<lambda>x. \<not> is_name x) items) + 1"
    by (simp add: filter_list_insert is_name_def)
  have "insert_names (Lst entries) [ii, 1] pos (x # names) =
      insert_names (Lst ?e1) [ii, 1] (Suc pos) names"
    by (simp only: insert_names.simps s bnd_Inr)
  also have "\<dots> = Inr (Lst (entries[ii := Lst [Str i, Lst items']]))"
    using r(1) by simp
  finally show ?case
    using r(2,3) c1 c2 by (intro exI [of _ items']) simp
qed


text \<open>The models of the institutions, for index lists.\<close>

lemma models_level_indices:
  assumes tot: "\<And>url. \<exists>xs. ls url = Inr xs"
    and "\<forall>j\<in>set js. j < length instts" "length nm = length instts"
  shows "\<exists>nm'. models_level ls root_url instts js (tr, nm) =
      Inr (tr @ map (\<lambda>j. Lst [Str (instts ! j),
              Lst (map Str (names_of (ls (root_url @ instts ! j @ ''/catalog.xml''))))]) js, nm')
    \<and> length nm' = length nm
    \<and> (\<forall>j<length nm. nm' ! j =
          (if j \<in> set js
           then int (length (names_of (ls (root_url @ instts ! j @ ''/catalog.xml''))))
           else nm ! j))"
  using assms(2,3)
proof (induction js arbitrary: tr nm)
  case Nil
  then show ?case by simp
next
  case (Cons j js)
  let ?u = "root_url @ instts ! j @ ''/catalog.xml''"
  obtain ms where ms: "ls ?u = Inr ms" using tot by blast
  let ?nm1 = "nm[j := int (length ms)]"
  let ?tr1 = "tr @ [Lst [Str (instts ! j), Lst (map Str ms)]]"
  have j: "j < length instts" using Cons.prems by simp
  have step: "models_level ls root_url instts (j # js) (tr, nm) =
      models_level ls root_url instts js (?tr1, ?nm1)"
    using j ms Cons.prems(2) by (simp add: nth_checked_def np_set_def)
  have "\<forall>j\<in>set js. j < length instts" "length ?nm1 = length instts"
    using Cons.prems by simp_all
  from Cons.IH [OF this, of ?tr1] obtain nm' where
    r: "models_level ls root_url instts js (?tr1, ?nm1) =
      Inr (?tr1 @ map (\<lambda>j. Lst [Str (instts ! j),
              Lst (map Str (names_of (ls (root_url @ instts ! j @ ''/catalog.xml''))))]) js, nm')"
      "length nm' = length ?nm1"
      "\<forall>k<length ?nm1. nm' ! k =
          (if k \<in> set js
           then int (length (names_of (ls (root_url @ instts ! k @ ''/catalog.xml''))))
           else ?nm1 ! k)"
    by blast
  show ?case
    using step r ms j Cons.prems(2)
    by (intro exI [of _ nm']) (auto simp: names_of_def nth_list_update)
qed


text \<open>The experiments of the models of one institution, for index lists.\<close>

lemma take_Suc_update: "c < length nx \<Longrightarrow> take (Suc c) (nx[c := v]) = take c nx @ [v]"
  by (simp add: take_Suc_conv_app_nth)

lemma expts_ij_indices:
  assumes tot: "\<And>url. \<exists>xs. ls url = Inr xs"
    and tw: "twork = Lst [Str i, Lst (map Str ms)]"
    and "\<forall>j\<in>set js. j < length ms"
    and "invntry b = Lst entries" "ii < length entries" "entries ! ii = Lst [Str i, Lst items]"
    and "icnt1 b + length js \<le> length (nxpts b)"
  shows "\<exists>b' items'. expts_ij ls root_url ii twork js b = Inr b'
    \<and> invntry b' = Lst (entries[ii := Lst [Str i, Lst items']])
    \<and> length (filter is_name items') = length (filter is_name items)
    \<and> length (filter (\<lambda>x. \<not> is_name x) items') =
        length (filter (\<lambda>x. \<not> is_name x) items)
        + length (concat (map (\<lambda>j. names_of (ls (root_url @ i @ ''/'' @ ms ! j @ ''/catalog.xml''))) js))
    \<and> nxpts b' = take (icnt1 b) (nxpts b)
        @ map (\<lambda>j. int (length (names_of (ls (root_url @ i @ ''/'' @ ms ! j @ ''/catalog.xml''))))) js
        @ drop (icnt1 b + length js) (nxpts b)
    \<and> icnt1 b' = icnt1 b + length js \<and> nmdls b' = nmdls b"
  using assms(3-7)
proof (induction js arbitrary: b entries items)
  case Nil
  then have "entries[ii := Lst [Str i, Lst items]] = entries" by (metis list_update_id)
  with Nil show ?case by (intro exI [of _ b] exI [of _ items]) simp
next
  case (Cons j js)
  let ?u = "root_url @ i @ ''/'' @ ms ! j @ ''/catalog.xml''"
  let ?c = "icnt1 b"
  obtain es where es: "ls ?u = Inr es" using tot by blast
  have j: "j < length ms" using Cons.prems by simp
  have c: "?c < length (nxpts b)" using Cons.prems by simp
  have url: "cat_all root_url
            [getpath twork [0], lit ''/'', getpath twork [1, j], lit ''/catalog.xml''] = Inr ?u"
    using j by (simp add: tw lit_def)
  from insert_names_entry [OF Cons.prems(3,4), of "2 * j + 1" es] obtain items1 where
    i1: "insert_names (Lst entries) [ii, 1] (2 * j + 1) es =
           Inr (Lst (entries[ii := Lst [Str i, Lst items1]]))"
      "length (filter is_name items1) = length (filter is_name items)"
      "length (filter (\<lambda>x. \<not> is_name x) items1) =
         length (filter (\<lambda>x. \<not> is_name x) items) + length es"
    by blast
  let ?e1 = "entries[ii := Lst [Str i, Lst items1]]"
  let ?b1 = "b\<lparr>invntry := Lst ?e1, nxpts := (nxpts b)[?c := int (length es)], icnt1 := Suc ?c\<rparr>"
  have step: "expts_ij ls root_url ii twork (j # js) b = expts_ij ls root_url ii twork js ?b1"
    using url es i1(1) c Cons.prems(2) by (simp add: np_set_def)
  have p: "\<forall>j\<in>set js. j < length ms" "invntry ?b1 = Lst ?e1" "ii < length ?e1"
    "?e1 ! ii = Lst [Str i, Lst items1]" "icnt1 ?b1 + length js \<le> length (nxpts ?b1)"
    using Cons.prems by simp_all
  from Cons.IH [OF p] obtain b' items' where
    r: "expts_ij ls root_url ii twork js ?b1 = Inr b'"
      "invntry b' = Lst (?e1[ii := Lst [Str i, Lst items']])"
      "length (filter is_name items') = length (filter is_name items1)"
      "length (filter (\<lambda>x. \<not> is_name x) items') =
        length (filter (\<lambda>x. \<not> is_name x) items1)
        + length (concat (map (\<lambda>j. names_of (ls (root_url @ i @ ''/'' @ ms ! j @ ''/catalog.xml''))) js))"
      "nxpts b' = take (icnt1 ?b1) (nxpts ?b1)
        @ map (\<lambda>j. int (length (names_of (ls (root_url @ i @ ''/'' @ ms ! j @ ''/catalog.xml''))))) js
        @ drop (icnt1 ?b1 + length js) (nxpts ?b1)"
      "icnt1 b' = icnt1 ?b1 + length js" "nmdls b' = nmdls ?b1"
    by blast
  have nx: "nxpts b' = take ?c (nxpts b)
        @ map (\<lambda>j. int (length (names_of (ls (root_url @ i @ ''/'' @ ms ! j @ ''/catalog.xml''))))) (j # js)
        @ drop (?c + length (j # js)) (nxpts b)"
    using r(5) c es by (simp add: take_Suc_update names_of_def)
  show ?case
    using step r(1,2,3,4,6,7) i1(2,3) nx es
    by (intro exI [of _ b'] exI [of _ items']) (simp add: names_of_def)
qed


lemma take_splice:
  "c + length A \<le> length nx \<Longrightarrow>
   take (c + length A) (take c nx @ A @ drop (c + length A) nx) = take c nx @ A"
  by simp

lemma drop_splice:
  assumes "c + length A \<le> length nx"
  shows "drop (c + length A + k) (take c nx @ A @ drop (c + length A) nx) = drop (c + length A + k) nx"
proof -
  let ?P = "take c nx @ A"
  have l: "length ?P = c + length A" using assms by simp
  have "drop (c + length A + k) (?P @ drop (c + length A) nx) =
      drop (length ?P + k) (?P @ drop (c + length A) nx)"
    by (simp only: l)
  also have "\<dots> = drop k (drop (c + length A) nx)"
    by (simp del: drop_drop append_assoc)
  also have "\<dots> = drop (k + (c + length A)) nx" by (rule drop_drop)
  also have "k + (c + length A) = c + length A + k" by arith
  finally show ?thesis by (simp only: append_assoc)
qed

lemma map_nth_upt: "map (\<lambda>k. f (ms ! k)) [0..<length ms] = map f ms"
proof -
  have "map (\<lambda>k. f (ms ! k)) [0..<length ms] = map f (map ((!) ms) [0..<length ms])"
    by (simp add: comp_def)
  then show ?thesis by (simp only: map_nth)
qed

text \<open>The experiments level, for lists of distinct institution indices.\<close>

lemma expts_ii_indices:
  fixes ls :: "string \<Rightarrow> pyerr + string list" and root_url :: string and instts :: "string list"
  defines "M \<equiv> \<lambda>j. names_of (ls (root_url @ instts ! j @ ''/catalog.xml''))"
  defines "E \<equiv> \<lambda>j m. names_of (ls (root_url @ instts ! j @ ''/'' @ m @ ''/catalog.xml''))"
  assumes tot: "\<And>url. \<exists>xs. ls url = Inr xs"
    and "distinct js" "\<forall>j\<in>set js. j < length entries" "invntry b = Lst entries"
    and "\<forall>j\<in>set js. entries ! j = Lst [Str (instts ! j), Lst (map Str (M j))]"
    and "\<forall>j\<in>set js. j < length (nmdls b) \<and> nmdls b ! j = int (length (M j))"
    and "icnt1 b + length (concat (map M js)) \<le> length (nxpts b)"
  shows "\<exists>b' entries'. expts_ii ls root_url js b = Inr b'
    \<and> invntry b' = Lst entries' \<and> length entries' = length entries
    \<and> (\<forall>j<length entries.
          if j \<in> set js then counted (instts ! j) (M j) (map (E j) (M j)) (entries' ! j)
          else entries' ! j = entries ! j)
    \<and> nxpts b' = take (icnt1 b) (nxpts b)
        @ concat (map (\<lambda>j. map (\<lambda>m. int (length (E j m))) (M j)) js)
        @ drop (icnt1 b + length (concat (map M js))) (nxpts b)
    \<and> icnt1 b' = icnt1 b + length (concat (map M js)) \<and> nmdls b' = nmdls b"
  using assms(4-9)
proof (induction js arbitrary: b entries)
  case Nil
  then show ?case by (intro exI [of _ b] exI [of _ entries]) simp
next
  case (Cons j js)
  let ?i = "instts ! j"
  let ?c = "icnt1 b"
  let ?A = "map (\<lambda>m. int (length (E j m))) (M j)"
  have jl: "j < length entries" and pr: "entries ! j = Lst [Str ?i, Lst (map Str (M j))]"
    and nm: "j < length (nmdls b)" "nmdls b ! j = int (length (M j))"
    using Cons.prems by simp_all
  have room: "?c + length [0..<length (M j)] \<le> length (nxpts b)" using Cons.prems(6) by simp
  from expts_ij_indices [of ls "entries ! j" ?i "M j" "[0..<length (M j)]" b entries j "map Str (M j)"
         root_url, OF tot pr _ Cons.prems(3) jl pr room]
  obtain b1 items1 where
    s: "expts_ij ls root_url j (entries ! j) [0..<length (M j)] b = Inr b1"
      "invntry b1 = Lst (entries[j := Lst [Str ?i, Lst items1]])"
      "length (filter is_name items1) = length (filter is_name (map Str (M j)))"
      "length (filter (\<lambda>x. \<not> is_name x) items1) =
        length (filter (\<lambda>x. \<not> is_name x) (map Str (M j)))
        + length (concat (map (\<lambda>k. names_of (ls (root_url @ ?i @ ''/'' @ M j ! k @ ''/catalog.xml'')))
            [0..<length (M j)]))"
      "nxpts b1 = take ?c (nxpts b)
        @ map (\<lambda>k. int (length (names_of (ls (root_url @ ?i @ ''/'' @ M j ! k @ ''/catalog.xml'')))))
            [0..<length (M j)]
        @ drop (?c + length [0..<length (M j)]) (nxpts b)"
      "icnt1 b1 = ?c + length [0..<length (M j)]" "nmdls b1 = nmdls b"
    by auto
  have names: "filter is_name (map Str (M j)) = map Str (M j)"
    "filter (\<lambda>x. \<not> is_name x) (map Str (M j)) = []"
    by (simp_all add: is_name_def filter_map comp_def)
  have cE: "map (\<lambda>k. names_of (ls (root_url @ ?i @ ''/'' @ M j ! k @ ''/catalog.xml''))) [0..<length (M j)]
      = map (E j) (M j)"
    unfolding E_def by (rule map_nth_upt)
  have cA: "map (\<lambda>k. int (length (names_of (ls (root_url @ ?i @ ''/'' @ M j ! k @ ''/catalog.xml'')))))
      [0..<length (M j)] = ?A"
    unfolding E_def by (rule map_nth_upt)
  let ?e1 = "entries[j := Lst [Str ?i, Lst items1]]"
  have cnt: "counted ?i (M j) (map (E j) (M j)) (?e1 ! j)"
    using jl s(3,4) names cE by (simp add: counted_def)
  have nx1: "nxpts b1 = take ?c (nxpts b) @ ?A @ drop (?c + length ?A) (nxpts b)"
    and ic1: "icnt1 b1 = ?c + length ?A"
    using s(5,6) cA by simp_all
  have step: "expts_ii ls root_url (j # js) b = expts_ii ls root_url js b1"
    using jl nm s(1) Cons.prems(3) by (simp add: np_get_def range0_def)
  have jn: "j \<notin> set js" and d: "distinct js" using Cons.prems(1) by simp_all
  have lenA: "?c + length ?A \<le> length (nxpts b)" using Cons.prems(6) by simp
  have l1: "length (nxpts b1) = length (nxpts b)" using nx1 lenA by simp
  have p: "\<forall>k\<in>set js. k < length ?e1" "invntry b1 = Lst ?e1"
    "\<forall>k\<in>set js. ?e1 ! k = Lst [Str (instts ! k), Lst (map Str (M k))]"
    "\<forall>k\<in>set js. k < length (nmdls b1) \<and> nmdls b1 ! k = int (length (M k))"
    "icnt1 b1 + length (concat (map M js)) \<le> length (nxpts b1)"
    using Cons.prems jn s(2,7) ic1 l1 by (auto simp: nth_list_update)
  from Cons.IH [OF d p] obtain b' entries' where
    r: "expts_ii ls root_url js b1 = Inr b'" "invntry b' = Lst entries'"
      "length entries' = length ?e1"
      "\<forall>k<length ?e1.
          if k \<in> set js then counted (instts ! k) (M k) (map (E k) (M k)) (entries' ! k)
          else entries' ! k = ?e1 ! k"
      "nxpts b' = take (icnt1 b1) (nxpts b1)
        @ concat (map (\<lambda>j. map (\<lambda>m. int (length (E j m))) (M j)) js)
        @ drop (icnt1 b1 + length (concat (map M js))) (nxpts b1)"
      "icnt1 b' = icnt1 b1 + length (concat (map M js))" "nmdls b' = nmdls b1"
    by blast
  have e: "\<forall>k<length entries.
          if k \<in> set (j # js) then counted (instts ! k) (M k) (map (E k) (M k)) (entries' ! k)
          else entries' ! k = entries ! k"
  proof (intro allI impI)
    fix k assume k: "k < length entries"
    show "if k \<in> set (j # js) then counted (instts ! k) (M k) (map (E k) (M k)) (entries' ! k)
          else entries' ! k = entries ! k"
    proof (cases "k = j")
      case True
      with r(4) k jn cnt show ?thesis by simp
    next
      case False
      with r(4) k show ?thesis by (simp add: nth_list_update)
    qed
  qed
  have nx: "nxpts b' = take ?c (nxpts b)
        @ concat (map (\<lambda>j. map (\<lambda>m. int (length (E j m))) (M j)) (j # js))
        @ drop (?c + length (concat (map M (j # js)))) (nxpts b)"
    unfolding r(5) ic1 nx1
    using take_splice [OF lenA] drop_splice [OF lenA, of "length (concat (map M js))"]
    by (simp add: add.assoc)
  show ?case
    using step r(1,2,3,6,7) e nx ic1 s(7)
    by (intro exI [of _ b'] exI [of _ entries']) (simp add: add.assoc)
qed


lemma sum_list_lengths:
  "sum_list (map (\<lambda>i. int (length (f i))) xs) = int (length (concat (map f xs)))"
  by (induction xs) simp_all

lemma concat_map_nth_upt:
  "concat (map (\<lambda>j. g (xs ! j)) [0..<length xs]) = concat (map g xs)"
  by (simp only: map_nth_upt)

text \<open>
  The first two levels of the build, for a lister that never raises: the build
  returns, \<open>nmdls\<close> and \<open>nxpts\<close> hold the numbers of names the lister gave for
  each institution and for each model, in order, and the entry of every institution
  holds that many models and experiments, wherever the insertions have put them.
\<close>

lemma build_expts_counts:
  fixes ls :: "string \<Rightarrow> pyerr + string list" and root_url :: string
  defines "I \<equiv> names_of (ls (root_url @ ''catalog.xml''))"
  defines "M \<equiv> \<lambda>i. names_of (ls (root_url @ i @ ''/catalog.xml''))"
  defines "E \<equiv> \<lambda>i m. names_of (ls (root_url @ i @ ''/'' @ m @ ''/catalog.xml''))"
  assumes tot: "\<And>url. \<exists>xs. ls url = Inr xs"
  shows "\<exists>b entries. build_expts ls root_url = Inr (int (length I), b)
    \<and> nmdls b = map (\<lambda>i. int (length (M i))) I
    \<and> nxpts b = concat (map (\<lambda>i. map (\<lambda>m. int (length (E i m))) (M i)) I)
    \<and> invntry b = Lst entries \<and> length entries = length I
    \<and> (\<forall>j<length I. counted (I ! j) (M (I ! j)) (map (E (I ! j)) (M (I ! j))) (entries ! j))"
proof -
  let ?n = "length I"
  have root: "ls (root_url @ ''catalog.xml'') = Inr I"
    using tot [of "root_url @ ''catalog.xml''"] by (auto simp: I_def names_of_def)
  let ?entry = "\<lambda>j. Lst [Str (I ! j), Lst (map Str (M (I ! j)))]"
  from models_level_indices [of ls "[0..<?n]" I "replicate ?n 0" root_url "[]", OF tot]
  obtain nm where
    m: "models_level ls root_url I [0..<?n] ([], replicate ?n 0) = Inr (map ?entry [0..<?n], nm)"
      "length nm = ?n"
      "\<forall>j<?n. nm ! j = int (length (M (I ! j)))"
    by (auto simp: M_def)
  have nm: "nm = map (\<lambda>i. int (length (M i))) I"
    using m(2,3) by (intro nth_equalityI) simp_all
  let ?tot = "length (concat (map M I))"
  have sum: "sum_list nm = int ?tot" unfolding nm by (rule sum_list_lengths)
  let ?b0 = "\<lparr>invntry = Lst (map ?entry [0..<?n]), nmdls = nm, nxpts = replicate ?tot 0,
             nsims = [], ntabs = [], nvars = [], icnt1 = 0, icnt2 = 0, icnt3 = 0, icnt4 = 0\<rparr>"
  have cm: "concat (map (\<lambda>j. M (I ! j)) [0..<?n]) = concat (map M I)"
    by (rule concat_map_nth_upt)
  have pre: "distinct [0..<?n]" "\<forall>j\<in>set [0..<?n]. j < length (map ?entry [0..<?n])"
    "invntry ?b0 = Lst (map ?entry [0..<?n])"
    "\<forall>j\<in>set [0..<?n]. map ?entry [0..<?n] ! j =
        Lst [Str (I ! j), Lst (map Str (names_of (ls (root_url @ I ! j @ ''/catalog.xml''))))]"
    "\<forall>j\<in>set [0..<?n]. j < length (nmdls ?b0)
        \<and> nmdls ?b0 ! j = int (length (names_of (ls (root_url @ I ! j @ ''/catalog.xml''))))"
    "icnt1 ?b0 + length (concat (map (\<lambda>j. names_of (ls (root_url @ I ! j @ ''/catalog.xml''))) [0..<?n]))
        \<le> length (nxpts ?b0)"
    using m(2,3) cm by (simp_all add: M_def)
  from expts_ii_indices [of ls "[0..<?n]" "map ?entry [0..<?n]" ?b0 I root_url, OF tot pre]
  obtain b entries where
    r: "expts_ii ls root_url [0..<?n] ?b0 = Inr b" "invntry b = Lst entries" "length entries = ?n"
      "\<forall>j<?n. counted (I ! j) (M (I ! j)) (map (E (I ! j)) (M (I ! j))) (entries ! j)"
      "nxpts b = concat (map (\<lambda>j. map (\<lambda>m. int (length (E (I ! j) m))) (M (I ! j))) [0..<?n])
         @ drop (length (concat (map (\<lambda>j. M (I ! j)) [0..<?n]))) (replicate ?tot 0)"
      "nmdls b = nm"
    by (auto simp: M_def E_def)
  have nx: "nxpts b = concat (map (\<lambda>i. map (\<lambda>m. int (length (E i m))) (M i)) I)"
    using r(5) cm concat_map_nth_upt [of "\<lambda>i. map (\<lambda>m. int (length (E i m))) (M i)" I] by simp
  have "build_expts ls root_url = Inr (int ?n, b)"
    using root m(1) sum r(1)
    by (simp add: build_expts_def np_zeros_def range0_def Let_def)
  with nm nx r(2,3,4,6) show ?thesis by blast
qed


text \<open>
  CCMI-1 stops at the experiments, and its lister never raises: for every server,
  where the inventory file can be written, \<open>create_inventory_file\<close> writes and returns
  an inventory with these counts.
\<close>

lemma create_inventory_file_ccmi1_counts:
  fixes w :: world and root_url :: string
  defines "I \<equiv> names_of (listing_ccmi1 w (root_url @ ''catalog.xml''))"
  defines "M \<equiv> \<lambda>i. names_of (listing_ccmi1 w (root_url @ i @ ''/catalog.xml''))"
  defines "E \<equiv> \<lambda>i m. names_of (listing_ccmi1 w (root_url @ i @ ''/'' @ m @ ''/catalog.xml''))"
  assumes dk: "dk inventory_file = Printed"
  shows "\<exists>full entries.
      create_inventory_file_ccmi1 w dk inventory_file root_url =
        ([(inventory_file, Some full)], Inr full)
    \<and> ninst1 full = int (length I)
    \<and> nmdls1 full = map (\<lambda>i. int (length (M i))) I
    \<and> nxpts1 full = concat (map (\<lambda>i. map (\<lambda>m. int (length (E i m))) (M i)) I)
    \<and> inv1 full = Lst entries \<and> length entries = length I
    \<and> (\<forall>j<length I. counted (I ! j) (M (I ! j)) (map (E (I ! j)) (M (I ! j))) (entries ! j))"
proof -
  from build_expts_counts [of "listing_ccmi1 w" root_url, OF listing_ccmi1_total]
  obtain b entries where
    r: "build_expts (listing_ccmi1 w) root_url = Inr (int (length I), b)"
      "nmdls b = map (\<lambda>i. int (length (M i))) I"
      "nxpts b = concat (map (\<lambda>i. map (\<lambda>m. int (length (E i m))) (M i)) I)"
      "invntry b = Lst entries" "length entries = length I"
      "\<forall>j<length I. counted (I ! j) (M (I ! j)) (map (E (I ! j)) (M (I ! j))) (entries ! j)"
    unfolding I_def M_def E_def by blast
  let ?full = "\<lparr>inv1 = invntry b, ninst1 = int (length I), nmdls1 = nmdls b, nxpts1 = nxpts b\<rparr>"
  have "create_inventory_file_ccmi1 w dk inventory_file root_url =
          ([(inventory_file, Some ?full)], Inr ?full)"
    using r(1) dk by (simp add: create_inventory_file_ccmi1_def print_to_def Let_def)
  with r(2-6) show ?thesis by (intro exI [of _ ?full] exI [of _ entries]) simp
qed

end
